theory Spec2Isabelle
  imports Main
begin

section \<open>The crawl orchestration of spider/spider\_main.py\<close>

text \<open>
  A shallow embedding of \<^verbatim>\<open>src/spider/spider_main.py\<close>. Python strings are
  byte strings in UTF-8 (text outside ASCII is written byte by byte), Python's
  unbounded integers are \<open>int\<close>, a value that \<^verbatim>\<open>dict.get\<close> may find missing
  is an \<open>option\<close> (\<open>None\<close> is Python's \<^verbatim>\<open>None\<close>), an exception is a value,
  what is printed is a list of messages, and the shared queue is the list of
  everything put on it, oldest first.
\<close>

subsection \<open>Exceptions\<close>

text \<open>
  The exceptions that can end a task, all of them of class \<^verbatim>\<open>Exception\<close>:
  those that Python raises when a response is not of the expected shape, and
  whatever the browser session raises (with its message).
\<close>

datatype exception = AttributeError | TypeError | KeyError | WebDriverException string

subsection \<open>The remote search API\<close>

text \<open>
  One element of \<^verbatim>\<open>items\<close> in a response of the search API. The spider reads
  nine keys, each with \<^verbatim>\<open>job.get(...)\<close>: a key that is absent (or holds
  \<^verbatim>\<open>null\<close>) reads as \<open>None\<close>.
\<close>

record job_entry =
  jobName :: "string option"
  jobAreaString :: "string option"
  provideSalaryString :: "string option"
  workYearString :: "string option"
  degreeString :: "string option"
  companyTypeString :: "string option"
  companyIndustryType1Str :: "string option"
  companyIndustryType2Str :: "string option"
  jobDescribe :: "string option"

text \<open>
  What the injected script hands back is any JSON value. The documented answer
  is \<^verbatim>\<open>{resultbody: {job: {items: [...]}}}\<close> or an object with the key
  \<^verbatim>\<open>error\<close>, but nothing in the code checks that, so every shape that the code
  treats differently has a constructor here.

  An element of \<^verbatim>\<open>items\<close> is an object (an entry) or something else, which has
  no \<^verbatim>\<open>get\<close>. The value of \<^verbatim>\<open>items\<close> is an array; or a value that Python
  takes as false (\<^verbatim>\<open>null\<close>, \<^verbatim>\<open>false\<close>, 0, the empty string, the empty
  object); or a string or object that is not empty, which a \<^verbatim>\<open>for\<close> walks
  character by character or key by key; or \<^verbatim>\<open>true\<close> or a number other than 0,
  which a \<^verbatim>\<open>for\<close> cannot walk.
\<close>

datatype item_value = Entry job_entry | NotAnObject

datatype items_value = ItemList "item_value list" | FalsyValue | TextOrObject | OtherScalar

text \<open>
  A key whose value should be an object: the key is absent, or holds an
  object, or holds anything else (\<^verbatim>\<open>null\<close> included).
\<close>

datatype 'a member = Absent | Object 'a | NotObject

datatype job_node = JobNode "items_value option"

datatype result_body = ResultBody "job_node member"

text \<open>
  The response itself. An object: whether it has the key \<^verbatim>\<open>error\<close> (and then
  the text that Python prints for its value), and its key \<^verbatim>\<open>resultbody\<close>. An
  array: whether the string \<^verbatim>\<open>error\<close> is one of its elements. A string:
  whether it contains the text \<^verbatim>\<open>error\<close>. Or \<^verbatim>\<open>null\<close>, a boolean or a number.
\<close>

datatype data =
  DataObject "string option" "result_body member"
| DataList bool
| DataText bool
| DataScalar

text \<open>
  The browser session, as far as the spider uses it: \<^verbatim>\<open>driver.get(url)\<close>, which
  returns nothing or raises, and the request of \<^verbatim>\<open>BaseSpider.request_json\<close>
  for a keyword, a page number and a city code, which returns the response or
  raises.
\<close>

record driver =
  driver_get :: "string \<Rightarrow> exception option"
  execute_async_script :: "string \<Rightarrow> int \<Rightarrow> string \<Rightarrow> exception + data"

definition request_json :: "driver \<Rightarrow> string \<Rightarrow> int \<Rightarrow> string \<Rightarrow> exception + data" where
  "request_json drv kw page_num jobArea = execute_async_script drv kw page_num jobArea"

text \<open>
  \<^verbatim>\<open>"error" in data\<close>: a test for a key of an object, for an element of an
  array, for a part of a string; a \<^verbatim>\<open>TypeError\<close> for anything else.
\<close>

definition error_in :: "data \<Rightarrow> exception + bool" where
  "error_in d =
     (case d of
        DataObject err rb \<Rightarrow> Inr (err \<noteq> None)
      | DataList b \<Rightarrow> Inr b
      | DataText b \<Rightarrow> Inr b
      | DataScalar \<Rightarrow> Inl TypeError)"

text \<open>
  \<^verbatim>\<open>data['error']\<close>, read for the line that is printed: the value under the key
  of an object (a \<^verbatim>\<open>KeyError\<close> without the key); a \<^verbatim>\<open>TypeError\<close> for an
  array or a string, which cannot be indexed by a string.
\<close>

definition error_text :: "data \<Rightarrow> exception + string" where
  "error_text d =
     (case d of
        DataObject err rb \<Rightarrow> (case err of Some txt \<Rightarrow> Inr txt | None \<Rightarrow> Inl KeyError)
      | DataList b \<Rightarrow> Inl TypeError
      | DataText b \<Rightarrow> Inl TypeError
      | DataScalar \<Rightarrow> Inl TypeError)"

text \<open>
  \<^verbatim>\<open>data.get("resultbody", {}).get("job", {}).get("items", [])\<close>: every missing
  key falls back to an empty object or the empty list; a value without \<^verbatim>\<open>get\<close>
  on the way raises \<^verbatim>\<open>AttributeError\<close>.
\<close>

definition get_items :: "data \<Rightarrow> exception + items_value" where
  "get_items d =
     (case d of
        DataObject err rb \<Rightarrow>
          (case rb of
             Absent \<Rightarrow> Inr (ItemList [])
           | NotObject \<Rightarrow> Inl AttributeError
           | Object (ResultBody jn) \<Rightarrow>
               (case jn of
                  Absent \<Rightarrow> Inr (ItemList [])
                | NotObject \<Rightarrow> Inl AttributeError
                | Object (JobNode its) \<Rightarrow>
                    (case its of None \<Rightarrow> Inr (ItemList []) | Some v \<Rightarrow> Inr v)))
      | DataList b \<Rightarrow> Inl AttributeError
      | DataText b \<Rightarrow> Inl AttributeError
      | DataScalar \<Rightarrow> Inl AttributeError)"

text \<open>\<^verbatim>\<open>not jobs\<close>, and the elements that \<^verbatim>\<open>for job in jobs\<close> walks.\<close>

definition falsy :: "items_value \<Rightarrow> bool" where
  "falsy v =
     (case v of
        ItemList xs \<Rightarrow> xs = []
      | FalsyValue \<Rightarrow> True
      | TextOrObject \<Rightarrow> False
      | OtherScalar \<Rightarrow> False)"

text \<open>
  The characters of a string and the keys of an object are strings, so the
  walk over one that is not empty starts with something that is not an object;
  the walk never gets past that element, so one such element stands for all.
\<close>

definition walk :: "items_value \<Rightarrow> exception + item_value list" where
  "walk v =
     (case v of
        ItemList xs \<Rightarrow> Inr xs
      | FalsyValue \<Rightarrow> Inr []
      | TextOrObject \<Rightarrow> Inr [NotAnObject]
      | OtherScalar \<Rightarrow> Inl TypeError)"

subsection \<open>Records, the queue and the printed messages\<close>

text \<open>
  The dictionary built for every entry (lines 139 to 146). \<^verbatim>\<open>provider\<close>,
  \<^verbatim>\<open>keyword\<close> and \<^verbatim>\<open>industry\<close> are always strings; the other seven values are
  whatever \<^verbatim>\<open>job.get\<close> returned.
\<close>

record result =
  provider :: string
  keyword :: string
  title :: "string option"
  place :: "string option"
  salary :: "string option"
  experience :: "string option"
  education :: "string option"
  companytype :: "string option"
  industry :: string
  description :: "string option"

text \<open>What travels on the queue: a result dictionary, or the string \<^verbatim>\<open>"STOP"\<close>.\<close>

datatype qitem = Rec result | STOP

text \<open>
  The lines the program prints, one constructor per \<^verbatim>\<open>print\<close> of the spider:
  the limit notice (city, job, count, limit), the error notice (the error
  text), the completion notice (city, job), the progress line (city, job, page,
  count, limit) and the warning of \<^verbatim>\<open>get_city_code\<close> (city).
\<close>

datatype message =
  LimitMsg string string int int
| ErrorMsg string
| DoneMsg string string
| ProgressMsg string string int int int
| CityWarning string

text \<open>The provider name, a constant of five Chinese characters, in UTF-8.\<close>

definition provider_name :: string where
  "provider_name = [CHR 0xE5, CHR 0x89, CHR 0x8D, CHR 0xE7, CHR 0xA8, CHR 0x8B, CHR 0xE6,
     CHR 0x97, CHR 0xA0, CHR 0xE5, CHR 0xBF, CHR 0xA7, CHR 0xE7, CHR 0xBD, CHR 0x91]"

text \<open>
  How an f-string renders a value that \<^verbatim>\<open>job.get\<close> returned: a string as
  itself, \<^verbatim>\<open>None\<close> as the four letters \<^verbatim>\<open>None\<close>.
\<close>

definition fstr :: "string option \<Rightarrow> string" where
  "fstr v = (case v of None \<Rightarrow> ''None'' | Some s \<Rightarrow> s)"

subsection \<open>Job51Spider\<close>

text \<open>
  The fields of a \<^verbatim>\<open>Job51Spider\<close> object, with the queue it shares and the
  lines it has printed. The driver is passed beside it.
\<close>

record spider =
  city :: string
  job :: string
  city_code :: string
  limit :: int
  count :: int
  queue :: "qitem list"
  printed :: "message list"

definition Job51Spider :: "string \<Rightarrow> string \<Rightarrow> string \<Rightarrow> qitem list \<Rightarrow> int \<Rightarrow> spider" where
  "Job51Spider c j code q lim =
     \<lparr>city = c, job = j, city_code = code, limit = lim, count = 0, queue = q, printed = []\<rparr>"

definition make_result :: "spider \<Rightarrow> job_entry \<Rightarrow> result" where
  "make_result sp e =
     \<lparr>provider = provider_name, keyword = job sp, title = jobName e,
      place = jobAreaString e, salary = provideSalaryString e,
      experience = workYearString e, education = degreeString e,
      companytype = companyTypeString e,
      industry = fstr (companyIndustryType1Str e) @ '' / '' @ fstr (companyIndustryType2Str e),
      description = jobDescribe e\<rparr>"

text \<open>
  The inner loop (lines 135 to 148): it leaves the page as soon as the counter
  has reached the limit, else it puts one result and counts it. An element
  that is not an object has no \<^verbatim>\<open>get\<close>: the \<^verbatim>\<open>AttributeError\<close> ends the walk
  with what has been put so far. The result is the spider afterwards, and the
  exception if there was one.
\<close>

fun for_jobs :: "item_value list \<Rightarrow> spider \<Rightarrow> spider \<times> exception option" where
  "for_jobs [] sp = (sp, None)"
| "for_jobs (x # xs) sp =
     (if limit sp \<le> count sp then (sp, None)
      else
        (case x of
           NotAnObject \<Rightarrow> (sp, Some AttributeError)
         | Entry e \<Rightarrow>
             for_jobs xs
               (sp\<lparr>queue := queue sp @ [Rec (make_result sp e)], count := count sp + 1\<rparr>)))"

lemma for_jobs_limit: "limit (fst (for_jobs xs sp)) = limit sp"
  by (induction xs arbitrary: sp) (auto split: item_value.splits)

lemma for_jobs_city: "city (fst (for_jobs xs sp)) = city sp"
  by (induction xs arbitrary: sp) (auto split: item_value.splits)

lemma for_jobs_city_code: "city_code (fst (for_jobs xs sp)) = city_code sp"
  by (induction xs arbitrary: sp) (auto split: item_value.splits)

lemma for_jobs_job: "job (fst (for_jobs xs sp)) = job sp"
  by (induction xs arbitrary: sp) (auto split: item_value.splits)

lemma for_jobs_printed: "printed (fst (for_jobs xs sp)) = printed sp"
  by (induction xs arbitrary: sp) (auto split: item_value.splits)

lemma for_jobs_puts:
  "\<exists>rs. queue (fst (for_jobs xs sp)) = queue sp @ map Rec rs
      \<and> count (fst (for_jobs xs sp)) = count sp + int (length rs)
      \<and> (count sp \<le> limit sp \<longrightarrow> count (fst (for_jobs xs sp)) \<le> limit sp)"
proof (induction xs arbitrary: sp)
  case Nil
  show ?case by (intro exI [of _ "[]"]) simp
next
  case (Cons x xs)
  show ?case
  proof (cases "limit sp \<le> count sp")
    case True
    then show ?thesis by (intro exI [of _ "[]"]) simp
  next
    case False
    show ?thesis
    proof (cases x)
      case NotAnObject
      with False show ?thesis by (intro exI [of _ "[]"]) simp
    next
      case (Entry e)
      let ?sp = "sp\<lparr>queue := queue sp @ [Rec (make_result sp e)], count := count sp + 1\<rparr>"
      from Cons [of ?sp] obtain rs where
        "queue (fst (for_jobs xs ?sp)) = queue ?sp @ map Rec rs"
        "count (fst (for_jobs xs ?sp)) = count ?sp + int (length rs)"
        "count ?sp \<le> limit ?sp \<longrightarrow> count (fst (for_jobs xs ?sp)) \<le> limit ?sp"
        by blast
      with False Entry show ?thesis
        by (intro exI [of _ "make_result sp e # rs"]) simp
    qed
  qed
qed

lemma for_jobs_progress:
  assumes "for_jobs xs sp = (sp', None)" and "xs \<noteq> []" and "count sp < limit sp"
  shows "count sp < count sp'"
proof (cases xs)
  case Nil
  with assms show ?thesis by simp
next
  case (Cons x xs')
  show ?thesis
  proof (cases x)
    case NotAnObject
    with Cons assms show ?thesis by simp
  next
    case (Entry e)
    let ?sp = "sp\<lparr>queue := queue sp @ [Rec (make_result sp e)], count := count sp + 1\<rparr>"
    from for_jobs_puts [of xs' ?sp] have "count ?sp \<le> count (fst (for_jobs xs' ?sp))" by auto
    moreover have "fst (for_jobs xs' ?sp) = sp'" using Cons Entry assms by simp
    ultimately show ?thesis by simp
  qed
qed

lemma make_result_cong:
  "job sp' = job sp \<Longrightarrow> make_result sp' e = make_result sp e"
  by (simp add: make_result_def)

lemma for_jobs_entries:
  "for_jobs (map Entry es) sp =
     (sp\<lparr>queue := queue sp @ map (\<lambda>e. Rec (make_result sp e)) (take (nat (limit sp - count sp)) es),
         count := count sp + int (min (nat (limit sp - count sp)) (length es))\<rparr>, None)"
proof (induction es arbitrary: sp)
  case Nil
  show ?case by simp
next
  case (Cons e es)
  show ?case
  proof (cases "limit sp \<le> count sp")
    case True
    then show ?thesis by simp
  next
    case False
    let ?sp = "sp\<lparr>queue := queue sp @ [Rec (make_result sp e)], count := count sp + 1\<rparr>"
    have m: "make_result ?sp = make_result sp"
      by (rule ext) (simp add: make_result_def)
    have n: "nat (limit sp - count sp) = Suc (nat (limit ?sp - count ?sp))"
      using False by simp
    show ?thesis
      using False Cons [of ?sp]
      by (simp only: list.map for_jobs.simps if_False item_value.case n take_Suc_Cons m) simp
  qed
qed

text \<open>
  One turn of the outer loop (the body of \<^verbatim>\<open>while True\<close>, lines 119 to 151):
  it checks the limit, then fetches, then checks for the error key, then for an
  empty page, and leaves the loop at the first check that holds; only
  otherwise does it walk the page, print the progress line and go round again.
  The request, the test for the key, the reading of the response and the walk
  can each raise; then the turn, and with it \<^verbatim>\<open>run\<close>, ends with the exception,
  the spider being as it was at that point.
\<close>

datatype turn_result = Break spider | Continue spider | Raise exception spider

definition turn :: "driver \<Rightarrow> int \<Rightarrow> spider \<Rightarrow> turn_result" where
  "turn drv page sp =
     (if limit sp \<le> count sp
      then Break (sp\<lparr>printed := printed sp @ [LimitMsg (city sp) (job sp) (count sp) (limit sp)]\<rparr>)
      else
        (case request_json drv (job sp) page (city_code sp) of
           Inl e \<Rightarrow> Raise e sp
         | Inr d \<Rightarrow>
             (case error_in d of
                Inl e \<Rightarrow> Raise e sp
              | Inr True \<Rightarrow>
                  (case error_text d of
                     Inl e \<Rightarrow> Raise e sp
                   | Inr msg \<Rightarrow> Break (sp\<lparr>printed := printed sp @ [ErrorMsg msg]\<rparr>))
              | Inr False \<Rightarrow>
                  (case get_items d of
                     Inl e \<Rightarrow> Raise e sp
                   | Inr jobs \<Rightarrow>
                       if falsy jobs
                       then Break (sp\<lparr>printed := printed sp @ [DoneMsg (city sp) (job sp)]\<rparr>)
                       else
                         (case walk jobs of
                            Inl e \<Rightarrow> Raise e sp
                          | Inr xs \<Rightarrow>
                              (case for_jobs xs sp of
                                 (sp', Some e) \<Rightarrow> Raise e sp'
                               | (sp', None) \<Rightarrow>
                                   Continue (sp'\<lparr>printed := printed sp' @
                                     [ProgressMsg (city sp') (job sp') page (count sp')
                                        (limit sp')]\<rparr>)))))))"

lemma turn_Continue:
  assumes "turn drv page sp = Continue sp'"
  shows "limit sp' = limit sp" and "count sp < count sp'" and "count sp < limit sp"
    and "count sp' \<le> limit sp" and "job sp' = job sp" and "city sp' = city sp"
    and "city_code sp' = city_code sp"
    and "\<exists>rs. queue sp' = queue sp @ map Rec rs \<and> count sp' = count sp + int (length rs)"
proof -
  from assms obtain jobs xs sp1 where c: "count sp < limit sp" and f: "\<not> falsy jobs"
    and w: "walk jobs = Inr xs" and fj: "for_jobs xs sp = (sp1, None)"
    and s: "sp' = sp1\<lparr>printed := printed sp1 @
              [ProgressMsg (city sp1) (job sp1) page (count sp1) (limit sp1)]\<rparr>"
    by (auto simp: turn_def split: if_splits sum.splits bool.splits prod.splits option.splits)
  have ne: "xs \<noteq> []" using f w by (auto simp: falsy_def walk_def split: items_value.splits)
  have sp1: "sp1 = fst (for_jobs xs sp)" using fj by simp
  show "count sp < limit sp" by (rule c)
  show "limit sp' = limit sp" using s sp1 by (simp add: for_jobs_limit)
  show "count sp < count sp'" using s for_jobs_progress [OF fj ne c] by simp
  show "count sp' \<le> limit sp" using s sp1 c for_jobs_puts [of xs sp] by auto
  show "job sp' = job sp" using s sp1 by (simp add: for_jobs_job)
  show "city sp' = city sp" using s sp1 by (simp add: for_jobs_city)
  show "city_code sp' = city_code sp" using s sp1 by (simp add: for_jobs_city_code)
  show "\<exists>rs. queue sp' = queue sp @ map Rec rs \<and> count sp' = count sp + int (length rs)"
    using s sp1 for_jobs_puts [of xs sp] by auto
qed

lemma turn_Break:
  assumes "turn drv page sp = Break sp'"
  shows "queue sp' = queue sp" and "count sp' = count sp" and "limit sp' = limit sp"
  using assms
  by (auto simp: turn_def split: if_splits sum.splits bool.splits prod.splits option.splits)

lemma turn_Raise:
  assumes "turn drv page sp = Raise e sp'"
  shows "count sp < limit sp" and "limit sp' = limit sp" and "printed sp' = printed sp"
    and "\<exists>rs. queue sp' = queue sp @ map Rec rs \<and> count sp' = count sp + int (length rs)
           \<and> count sp' \<le> limit sp"
proof -
  from assms have c: "count sp < limit sp"
    by (auto simp: turn_def split: if_splits)
  from assms have "sp' = sp \<or> (\<exists>xs. sp' = fst (for_jobs xs sp))"
    by (auto simp: turn_def split: if_splits sum.splits bool.splits prod.splits option.splits)
      (metis fst_conv)+
  then show "limit sp' = limit sp" and "printed sp' = printed sp"
    and "\<exists>rs. queue sp' = queue sp @ map Rec rs \<and> count sp' = count sp + int (length rs)
           \<and> count sp' \<le> limit sp"
  proof (atomize (full), elim disjE exE)
    assume "sp' = sp"
    with c show "limit sp' = limit sp \<and> printed sp' = printed sp \<and>
        (\<exists>rs. queue sp' = queue sp @ map Rec rs \<and> count sp' = count sp + int (length rs)
           \<and> count sp' \<le> limit sp)"
      by (auto intro: exI [of _ "[]"])
  next
    fix xs assume "sp' = fst (for_jobs xs sp)"
    with c for_jobs_puts [of xs sp] show "limit sp' = limit sp \<and> printed sp' = printed sp \<and>
        (\<exists>rs. queue sp' = queue sp @ map Rec rs \<and> count sp' = count sp + int (length rs)
           \<and> count sp' \<le> limit sp)"
      by (auto simp: for_jobs_limit for_jobs_printed)
  qed
  show "count sp < limit sp" by (rule c)
qed

text \<open>
  The loop itself: turn after turn, the page number going up by one. It ends
  with the spider as it is then, and with the exception if one ended it.
\<close>

function run_loop :: "driver \<Rightarrow> int \<Rightarrow> spider \<Rightarrow> exception option \<times> spider" where
  "run_loop drv page sp =
     (case turn drv page sp of
        Break sp' \<Rightarrow> (None, sp')
      | Raise e sp' \<Rightarrow> (Some e, sp')
      | Continue sp' \<Rightarrow> run_loop drv (page + 1) sp')"
  by pat_completeness auto
termination
proof (relation "measure (\<lambda>(drv, page, sp). nat (limit sp - count sp))")
  show "wf (measure (\<lambda>(drv, page, sp). nat (limit sp - count sp)))" by simp
next
  fix drv :: driver and page :: int and sp sp' :: spider
  assume "turn drv page sp = Continue sp'"
  from turn_Continue(1-3) [OF this]
  show "((drv, page + 1, sp'), drv, page, sp) \<in> measure (\<lambda>(drv, page, sp). nat (limit sp - count sp))"
    by simp
qed

declare run_loop.simps [simp del]

text \<open>
  \<^verbatim>\<open>Job51Spider.run\<close>: it opens the search page of the city (which can raise),
  starts the loop at page 1 and, when the loop is left by a \<^verbatim>\<open>break\<close>, returns
  the string \<^verbatim>\<open>"over"\<close>. An exception leaves \<^verbatim>\<open>run\<close> without a value. (The
  pause of three seconds has no part in what is put on the queue.)
\<close>

datatype outcome = Returned string | Raised exception

definition run :: "driver \<Rightarrow> spider \<Rightarrow> outcome \<times> spider" where
  "run drv sp =
     (case driver_get drv (''https://we.51job.com/pc/search?jobArea='' @ city_code sp) of
        Some e \<Rightarrow> (Raised e, sp)
      | None \<Rightarrow>
          (case run_loop drv 1 sp of
             (None, sp') \<Rightarrow> (Returned ''over'', sp')
           | (Some e, sp') \<Rightarrow> (Raised e, sp')))"

subsection \<open>get\_city\_code\<close>

text \<open>
  The parsed \<^verbatim>\<open>conf.ini\<close>: a section name leads to the options of that section
  (with those of the default section, if any), an option name to its value.
  The parser stores option names through \<^verbatim>\<open>optionxform\<close>, which lowers the
  case, and looks them up through it; here it lowers the letters A to Z and
  leaves every other byte, so also every Chinese name, as it is. \<^verbatim>\<open>config.get\<close>
  fails in two ways, and these are the two exceptions that \<^verbatim>\<open>get_city_code\<close>
  catches. (Values are plain text without \<^verbatim>\<open>%\<close> references.)
\<close>

type_synonym config = "string \<Rightarrow> (string \<Rightarrow> string option) option"

datatype config_error = NoSectionError string | NoOptionError string string

definition optionxform :: "string \<Rightarrow> string" where
  "optionxform s =
     map (\<lambda>c. let n = (of_char c :: nat) in if 65 \<le> n \<and> n \<le> 90 then char_of (n + 32) else c) s"

definition config_get :: "config \<Rightarrow> string \<Rightarrow> string \<Rightarrow> config_error + string" where
  "config_get cfg section opt =
     (case cfg section of
        None \<Rightarrow> Inl (NoSectionError section)
      | Some sec \<Rightarrow>
          (case sec (optionxform opt) of
             None \<Rightarrow> Inl (NoOptionError opt section)
           | Some v \<Rightarrow> Inr v))"

text \<open>The code, and what was printed (the warning, or nothing).\<close>

definition get_city_code :: "config \<Rightarrow> string \<Rightarrow> string \<times> message list" where
  "get_city_code cfg city_name =
     (case config_get cfg ''citycode'' city_name of
        Inr code \<Rightarrow> (code, [])
      | Inl (NoSectionError sect) \<Rightarrow> (''000000'', [CityWarning city_name])
      | Inl (NoOptionError opt sect) \<Rightarrow> (''000000'', [CityWarning city_name]))"

subsection \<open>One task: run\_single\_task and SpiderProcess.run\<close>

text \<open>
  Both functions have the same body: start a browser, resolve the city code,
  build the spider on the shared queue and run it; any exception, also one
  that ends \<^verbatim>\<open>spider.run()\<close>, is caught by \<^verbatim>\<open>except Exception\<close>, printed and
  swallowed, so what \<^verbatim>\<open>run\<close> returns or raises is dropped here. The browser
  is \<open>None\<close> when \<^verbatim>\<open>webdriver.Chrome\<close> fails to start: then nothing is put.
  Each returns the queue as it is afterwards.
\<close>

definition run_single_task ::
  "driver option \<Rightarrow> config \<Rightarrow> string \<Rightarrow> string \<Rightarrow> qitem list \<Rightarrow> int \<Rightarrow> qitem list" where
  "run_single_task chrome cfg c j q lim =
     (case chrome of
        None \<Rightarrow> q
      | Some process_driver \<Rightarrow>
          (let code = fst (get_city_code cfg c);
               sp = Job51Spider c j code q lim
           in queue (snd (run process_driver sp))))"

definition SpiderProcess_run ::
  "driver option \<Rightarrow> config \<Rightarrow> string \<Rightarrow> string \<Rightarrow> qitem list \<Rightarrow> int \<Rightarrow> qitem list" where
  "SpiderProcess_run chrome cfg c j q lim =
     (case chrome of
        None \<Rightarrow> q
      | Some process_driver \<Rightarrow>
          (let code = fst (get_city_code cfg c);
               sp = Job51Spider c j code q lim
           in queue (snd (run process_driver sp))))"

subsection \<open>The parameters of a batch\<close>

text \<open>
  The timer settings and the dictionary handed to \<^verbatim>\<open>main\<close>. A key read with
  \<^verbatim>\<open>.get\<close> is an \<open>option\<close> (\<open>None\<close>: the key is absent); the keys of the timer
  that are read with \<^verbatim>\<open>[...]\<close> are plain fields.
\<close>

record timer_settings =
  enable :: bool
  begin_hour :: int
  begin_minute :: int
  end_hour :: int
  end_minute :: int
  interval :: int

record dict_parameter =
  city_arg :: "string list option"
  job_arg :: "string list option"
  limit_arg :: "int option"
  concurrent_arg :: "bool option"
  timer_arg :: "timer_settings option"

definition DEFAULT_CITIES :: "string list" where
  "DEFAULT_CITIES =
     [
      [CHR 0xE5, CHR 0x8C, CHR 0x97, CHR 0xE4, CHR 0xBA, CHR 0xAC],
      [CHR 0xE4, CHR 0xB8, CHR 0x8A, CHR 0xE6, CHR 0xB5, CHR 0xB7],
      [CHR 0xE5, CHR 0xB9, CHR 0xBF, CHR 0xE5, CHR 0xB7, CHR 0x9E],
      [CHR 0xE6, CHR 0xB7, CHR 0xB1, CHR 0xE5, CHR 0x9C, CHR 0xB3],
      [CHR 0xE6, CHR 0x9D, CHR 0xAD, CHR 0xE5, CHR 0xB7, CHR 0x9E],
      [CHR 0xE6, CHR 0x88, CHR 0x90, CHR 0xE9, CHR 0x83, CHR 0xBD],
      [CHR 0xE5, CHR 0x8D, CHR 0x97, CHR 0xE4, CHR 0xBA, CHR 0xAC],
      [CHR 0xE6, CHR 0xAD, CHR 0xA6, CHR 0xE6, CHR 0xB1, CHR 0x89],
      [CHR 0xE8, CHR 0xA5, CHR 0xBF, CHR 0xE5, CHR 0xAE, CHR 0x89],
      [CHR 0xE8, CHR 0x8B, CHR 0x8F, CHR 0xE5, CHR 0xB7, CHR 0x9E],
      [CHR 0xE9, CHR 0x87, CHR 0x8D, CHR 0xE5, CHR 0xBA, CHR 0x86],
      [CHR 0xE9, CHR 0x95, CHR 0xBF, CHR 0xE6, CHR 0xB2, CHR 0x99],
      [CHR 0xE5, CHR 0xA4, CHR 0xA9, CHR 0xE6, CHR 0xB4, CHR 0xA5],
      [CHR 0xE9, CHR 0x9D, CHR 0x92, CHR 0xE5, CHR 0xB2, CHR 0x9B],
      [CHR 0xE5, CHR 0x8E, CHR 0xA6, CHR 0xE9, CHR 0x97, CHR 0xA8],
      [CHR 0xE5, CHR 0xAE, CHR 0x81, CHR 0xE6, CHR 0xB3, CHR 0xA2],
      [CHR 0xE5, CHR 0xA4, CHR 0xA7, CHR 0xE8, CHR 0xBF, CHR 0x9E],
      [CHR 0xE7, CHR 0xA6, CHR 0x8F, CHR 0xE5, CHR 0xB7, CHR 0x9E],
      [CHR 0xE6, CHR 0xB5, CHR 0x8E, CHR 0xE5, CHR 0x8D, CHR 0x97],
      [CHR 0xE6, CHR 0x97, CHR 0xA0, CHR 0xE9, CHR 0x94, CHR 0xA1],
      [CHR 0xE5, CHR 0x90, CHR 0x88, CHR 0xE8, CHR 0x82, CHR 0xA5],
      [CHR 0xE9, CHR 0x83, CHR 0x91, CHR 0xE5, CHR 0xB7, CHR 0x9E],
      [CHR 0xE6, CHR 0xB2, CHR 0x88, CHR 0xE9, CHR 0x98, CHR 0xB3],
      [CHR 0xE6, CHR 0x98, CHR 0x86, CHR 0xE6, CHR 0x98, CHR 0x8E],
      [CHR 0xE5, CHR 0x93, CHR 0x88, CHR 0xE5, CHR 0xB0, CHR 0x94, CHR 0xE6, CHR 0xBB,
        CHR 0xA8],
      [CHR 0xE7, CHR 0x9F, CHR 0xB3, CHR 0xE5, CHR 0xAE, CHR 0xB6, CHR 0xE5, CHR 0xBA,
        CHR 0x84],
      [CHR 0xE5, CHR 0x8D, CHR 0x97, CHR 0xE6, CHR 0x98, CHR 0x8C],
      [CHR 0xE4, CHR 0xB8, CHR 0x9C, CHR 0xE8, CHR 0x8E, CHR 0x9E],
      [CHR 0xE4, CHR 0xBD, CHR 0x9B, CHR 0xE5, CHR 0xB1, CHR 0xB1],
      [CHR 0xE7, CHR 0x8F, CHR 0xA0, CHR 0xE6, CHR 0xB5, CHR 0xB7],
      [CHR 0xE5, CHR 0xB8, CHR 0xB8, CHR 0xE5, CHR 0xB7, CHR 0x9E],
      [CHR 0xE6, CHR 0xB8, CHR 0xA9, CHR 0xE5, CHR 0xB7, CHR 0x9E],
      [CHR 0xE5, CHR 0x85, CHR 0xA8, CHR 0xE5, CHR 0x9B, CHR 0xBD]
     ]"

definition DEFAULT_JOBS :: "string list" where
  "DEFAULT_JOBS =
     [
      ''Java'',
      ''Python'',
      ''Go'',
      ''C++'',
      ''PHP'',
      [CHR 0xE5, CHR 0x90, CHR 0x8E, CHR 0xE7, CHR 0xAB, CHR 0xAF, CHR 0xE5, CHR 0xBC,
        CHR 0x80, CHR 0xE5, CHR 0x8F, CHR 0x91],
      [CHR 0xE6, CHR 0x9C, CHR 0x8D, CHR 0xE5, CHR 0x8A, CHR 0xA1, CHR 0xE5, CHR 0x99,
        CHR 0xA8],
      [CHR 0xE5, CHR 0x89, CHR 0x8D, CHR 0xE7, CHR 0xAB, CHR 0xAF, CHR 0xE5, CHR 0xBC,
        CHR 0x80, CHR 0xE5, CHR 0x8F, CHR 0x91],
      ''JavaScript'',
      ''Vue'',
      ''React'',
      [CHR 0xE5, CHR 0xB0, CHR 0x8F, CHR 0xE7, CHR 0xA8, CHR 0x8B, CHR 0xE5, CHR 0xBA,
        CHR 0x8F],
      ''Android'',
      ''iOS'',
      [CHR 0xE6, CHR 0x95, CHR 0xB0, CHR 0xE6, CHR 0x8D, CHR 0xAE, CHR 0xE5, CHR 0x88,
        CHR 0x86, CHR 0xE6, CHR 0x9E, CHR 0x90],
      [CHR 0xE6, CHR 0x95, CHR 0xB0, CHR 0xE6, CHR 0x8D, CHR 0xAE, CHR 0xE6, CHR 0x8C,
        CHR 0x96, CHR 0xE6, CHR 0x8E, CHR 0x98],
      [CHR 0xE5, CHR 0xA4, CHR 0xA7, CHR 0xE6, CHR 0x95, CHR 0xB0, CHR 0xE6, CHR 0x8D,
        CHR 0xAE],
      [CHR 0xE7, CHR 0xAE, CHR 0x97, CHR 0xE6, CHR 0xB3, CHR 0x95, CHR 0xE5, CHR 0xB7,
        CHR 0xA5, CHR 0xE7, CHR 0xA8, CHR 0x8B, CHR 0xE5, CHR 0xB8, CHR 0x88],
      [CHR 0xE6, CHR 0x9C, CHR 0xBA, CHR 0xE5, CHR 0x99, CHR 0xA8, CHR 0xE5, CHR 0xAD,
        CHR 0xA6, CHR 0xE4, CHR 0xB9, CHR 0xA0],
      [CHR 0xE4, CHR 0xBA, CHR 0xBA, CHR 0xE5, CHR 0xB7, CHR 0xA5, CHR 0xE6, CHR 0x99,
        CHR 0xBA, CHR 0xE8, CHR 0x83, CHR 0xBD],
      ''AI'',
      [CHR 0xE6, CHR 0xB7, CHR 0xB1, CHR 0xE5, CHR 0xBA, CHR 0xA6, CHR 0xE5, CHR 0xAD,
        CHR 0xA6, CHR 0xE4, CHR 0xB9, CHR 0xA0],
      [CHR 0xE8, CHR 0x87, CHR 0xAA, CHR 0xE7, CHR 0x84, CHR 0xB6, CHR 0xE8, CHR 0xAF,
        CHR 0xAD, CHR 0xE8, CHR 0xA8, CHR 0x80, CHR 0xE5, CHR 0xA4, CHR 0x84, CHR 0xE7,
        CHR 0x90, CHR 0x86],
      ''NLP'',
      [CHR 0xE6, CHR 0x8E, CHR 0xA8, CHR 0xE8, CHR 0x8D, CHR 0x90, CHR 0xE7, CHR 0xB3,
        CHR 0xBB, CHR 0xE7, CHR 0xBB, CHR 0x9F],
      [CHR 0xE8, CHR 0xBD, CHR 0xAF, CHR 0xE4, CHR 0xBB, CHR 0xB6, CHR 0xE6, CHR 0xB5,
        CHR 0x8B, CHR 0xE8, CHR 0xAF, CHR 0x95],
      [CHR 0xE6, CHR 0xB5, CHR 0x8B, CHR 0xE8, CHR 0xAF, CHR 0x95, CHR 0xE5, CHR 0xBC,
        CHR 0x80, CHR 0xE5, CHR 0x8F, CHR 0x91],
      [CHR 0xE8, CHR 0x87, CHR 0xAA, CHR 0xE5, CHR 0x8A, CHR 0xA8, CHR 0xE5, CHR 0x8C,
        CHR 0x96, CHR 0xE6, CHR 0xB5, CHR 0x8B, CHR 0xE8, CHR 0xAF, CHR 0x95],
      [CHR 0xE8, CHR 0xBF, CHR 0x90, CHR 0xE7, CHR 0xBB, CHR 0xB4],
      ''DevOps'',
      ''SRE'',
      [CHR 0xE6, CHR 0xB8, CHR 0xB8, CHR 0xE6, CHR 0x88, CHR 0x8F, CHR 0xE5, CHR 0xBC,
        CHR 0x80, CHR 0xE5, CHR 0x8F, CHR 0x91],
      ''Unity'',
      ''UE4'',
      ''UE5'',
      [CHR 0xE6, CHR 0xB8, CHR 0xB8, CHR 0xE6, CHR 0x88, CHR 0x8F, CHR 0xE7, CHR 0xAD,
        CHR 0x96, CHR 0xE5, CHR 0x88, CHR 0x92],
      [CHR 0xE5, CHR 0xB5, CHR 0x8C, CHR 0xE5, CHR 0x85, CHR 0xA5, CHR 0xE5, CHR 0xBC,
        CHR 0x8F],
      [CHR 0xE7, CHR 0x89, CHR 0xA9, CHR 0xE8, CHR 0x81, CHR 0x94, CHR 0xE7, CHR 0xBD,
        CHR 0x91],
      ''IoT'',
      [CHR 0xE7, CHR 0xA1, CHR 0xAC, CHR 0xE4, CHR 0xBB, CHR 0xB6],
      [CHR 0xE4, CHR 0xBA, CHR 0xA7, CHR 0xE5, CHR 0x93, CHR 0x81, CHR 0xE7, CHR 0xBB,
        CHR 0x8F, CHR 0xE7, CHR 0x90, CHR 0x86],
      [CHR 0xE9, CHR 0xA1, CHR 0xB9, CHR 0xE7, CHR 0x9B, CHR 0xAE, CHR 0xE7, CHR 0xBB,
        CHR 0x8F, CHR 0xE7, CHR 0x90, CHR 0x86],
      [CHR 0xE6, CHR 0x8A, CHR 0x80, CHR 0xE6, CHR 0x9C, CHR 0xAF, CHR 0xE6, CHR 0x94,
        CHR 0xAF, CHR 0xE6, CHR 0x8C, CHR 0x81],
      [CHR 0xE7, CHR 0xBD, CHR 0x91, CHR 0xE7, CHR 0xBB, CHR 0x9C, CHR 0xE5, CHR 0xAE,
        CHR 0x89, CHR 0xE5, CHR 0x85, CHR 0xA8],
      [CHR 0xE7, CHR 0x88, CHR 0xAC, CHR 0xE8, CHR 0x99, CHR 0xAB],
      [CHR 0xE5, CHR 0x8F, CHR 0xAF, CHR 0xE8, CHR 0xA7, CHR 0x86, CHR 0xE5, CHR 0x8C,
        CHR 0x96],
      ''UI'' @ [CHR 0xE8, CHR 0xAE, CHR 0xBE, CHR 0xE8, CHR 0xAE, CHR 0xA1, CHR 0xE5,
        CHR 0xB8, CHR 0x88],
      [CHR 0xE9, CHR 0x94, CHR 0x80, CHR 0xE5, CHR 0x94, CHR 0xAE],
      [CHR 0xE8, CHR 0xBF, CHR 0x90, CHR 0xE8, CHR 0x90, CHR 0xA5]
     ]"

text \<open>Python's \<^verbatim>\<open>x or d\<close> for a list that may be missing: \<open>d\<close> whenever \<open>x\<close> is falsy.\<close>

definition or_default :: "'a list option \<Rightarrow> 'a list \<Rightarrow> 'a list" where
  "or_default x d = (case x of None \<Rightarrow> d | Some xs \<Rightarrow> if xs = [] then d else xs)"

definition city_list :: "dict_parameter \<Rightarrow> string list" where
  "city_list p = or_default (city_arg p) DEFAULT_CITIES"

definition job_list :: "dict_parameter \<Rightarrow> string list" where
  "job_list p = or_default (job_arg p) DEFAULT_JOBS"

definition limit_per_task :: "dict_parameter \<Rightarrow> int" where
  "limit_per_task p = (case limit_arg p of None \<Rightarrow> 999999 | Some l \<Rightarrow> l)"

definition use_concurrent :: "dict_parameter \<Rightarrow> bool" where
  "use_concurrent p = (case concurrent_arg p of None \<Rightarrow> True | Some b \<Rightarrow> b)"

text \<open>
  The tasks of a batch, in the order of the two nested \<^verbatim>\<open>for\<close> loops: every
  city with every job.
\<close>

definition tasks :: "dict_parameter \<Rightarrow> (string \<times> string) list" where
  "tasks p = List.product (city_list p) (job_list p)"

subsection \<open>The serial batch\<close>

text \<open>
  The world of a batch: which browser each task gets, and the city table.
  The serial branch (lines 394 to 397) runs the tasks one after the other on
  the one queue.
\<close>

type_synonym browsers = "string \<Rightarrow> string \<Rightarrow> driver option"

fun serial_tasks ::
  "browsers \<Rightarrow> config \<Rightarrow> int \<Rightarrow> (string \<times> string) list \<Rightarrow> qitem list \<Rightarrow> qitem list" where
  "serial_tasks br cfg lim [] q = q"
| "serial_tasks br cfg lim ((c, j) # ts) q =
     serial_tasks br cfg lim ts (run_single_task (br c j) cfg c j q lim)"

subsection \<open>The concurrent batch\<close>

text \<open>
  The concurrent branch (lines 379 to 400) as a transition system. The state
  holds the tasks whose process is not started yet, for every started process
  what it has still to put (empty once the process has exited), how many
  processes the joining loop has passed, everything put on the queue so far,
  and whether line 400 has run. A process puts its items one by one, in its
  own order, at any time after its start; it may also die at any point, and
  then puts nothing more. \<^verbatim>\<open>p.join()\<close> returns only for a process that has
  exited.
\<close>

record launcher =
  to_start :: "(string \<times> string) list"
  processes :: "qitem list list"
  joined :: nat
  shared_queue :: "qitem list"
  stop_sent :: bool

definition launcher_init :: "(string \<times> string) list \<Rightarrow> launcher" where
  "launcher_init ts =
     \<lparr>to_start = ts, processes = [], joined = 0, shared_queue = [], stop_sent = False\<rparr>"

text \<open>What the process of a task puts when nothing stops it: its run on a queue of its own.\<close>

definition process_puts :: "browsers \<Rightarrow> config \<Rightarrow> int \<Rightarrow> string \<times> string \<Rightarrow> qitem list" where
  "process_puts br cfg lim t = SpiderProcess_run (br (fst t) (snd t)) cfg (fst t) (snd t) [] lim"

inductive launch_step :: "browsers \<Rightarrow> config \<Rightarrow> int \<Rightarrow> launcher \<Rightarrow> launcher \<Rightarrow> bool"
  for br :: browsers and cfg :: config and lim :: int where
  start:
    "to_start s = t # ts \<Longrightarrow>
     launch_step br cfg lim s
       (s\<lparr>to_start := ts, processes := processes s @ [process_puts br cfg lim t]\<rparr>)"
| put:
    "i < length (processes s) \<Longrightarrow> processes s ! i = x # xs \<Longrightarrow>
     launch_step br cfg lim s
       (s\<lparr>processes := (processes s)[i := xs], shared_queue := shared_queue s @ [x]\<rparr>)"
| die:
    "i < length (processes s) \<Longrightarrow> processes s ! i \<noteq> [] \<Longrightarrow>
     launch_step br cfg lim s (s\<lparr>processes := (processes s)[i := []]\<rparr>)"
| join:
    "to_start s = [] \<Longrightarrow> joined s < length (processes s) \<Longrightarrow> processes s ! joined s = [] \<Longrightarrow>
     launch_step br cfg lim s (s\<lparr>joined := Suc (joined s)\<rparr>)"
| stop:
    "to_start s = [] \<Longrightarrow> joined s = length (processes s) \<Longrightarrow> \<not> stop_sent s \<Longrightarrow>
     launch_step br cfg lim s
       (s\<lparr>shared_queue := shared_queue s @ [STOP], stop_sent := True\<rparr>)"

text \<open>
  \<^verbatim>\<open>run_crawl_once\<close>, as far as the queue goes: the queues a batch can leave
  behind when it is over. In the concurrent branch that is the queue of any
  state the launcher can reach in which line 400 has run; in the serial branch
  it is the one queue the tasks build in turn, with \<^verbatim>\<open>"STOP"\<close> put after the
  last of them.
\<close>

inductive run_crawl_once :: "browsers \<Rightarrow> config \<Rightarrow> dict_parameter \<Rightarrow> qitem list \<Rightarrow> bool"
  for br :: browsers and cfg :: config and p :: dict_parameter where
  concurrent:
    "use_concurrent p \<Longrightarrow>
     (launch_step br cfg (limit_per_task p))\<^sup>*\<^sup>* (launcher_init (tasks p)) s \<Longrightarrow>
     stop_sent s \<Longrightarrow>
     run_crawl_once br cfg p (shared_queue s)"
| serial:
    "\<not> use_concurrent p \<Longrightarrow>
     run_crawl_once br cfg p (serial_tasks br cfg (limit_per_task p) (tasks p) [] @ [STOP])"

subsection \<open>WriterProcess\<close>

text \<open>
  The header and the column order are \<^verbatim>\<open>fieldnames\<close>; \<^verbatim>\<open>DictWriter.writerow\<close>
  takes the values of a dictionary in that order, \<^verbatim>\<open>None\<close> as the empty cell.
\<close>

definition fieldnames :: "string list" where
  "fieldnames = [''provider'', ''keyword'', ''title'', ''place'', ''salary'', ''experience'',
     ''education'', ''companytype'', ''industry'', ''description'']"

definition cell :: "string option \<Rightarrow> string" where
  "cell v = (case v of None \<Rightarrow> [] | Some s \<Rightarrow> s)"

definition writerow :: "result \<Rightarrow> string list" where
  "writerow r = [provider r, keyword r, cell (title r), cell (place r), cell (salary r),
     cell (experience r), cell (education r), cell (companytype r), industry r,
     cell (description r)]"

text \<open>
  The line that the \<^verbatim>\<open>csv\<close> module writes for a row, with its default dialect:
  the cells are joined by commas and the line ends with CR LF; a cell that
  holds a comma, a double quote, a CR or an LF is put between double quotes,
  with every double quote in it doubled.
\<close>

definition special :: "char \<Rightarrow> bool" where
  "special c = (c = CHR '','' \<or> c = CHR 0x22 \<or> c = CHR 0x0D \<or> c = CHR 0x0A)"

definition csv_field :: "string \<Rightarrow> string" where
  "csv_field s =
     (if list_ex special s
      then [CHR 0x22] @ concat (map (\<lambda>c. if c = CHR 0x22 then [c, c] else [c]) s) @ [CHR 0x22]
      else s)"

fun join_with :: "string \<Rightarrow> string list \<Rightarrow> string" where
  "join_with sep [] = []"
| "join_with sep [x] = x"
| "join_with sep (x # y # ys) = x @ sep @ join_with sep (y # ys)"

definition csv_line :: "string list \<Rightarrow> string" where
  "csv_line cells = join_with '','' (map csv_field cells) @ [CHR 0x0D, CHR 0x0A]"

text \<open>
  The file that \<^verbatim>\<open>open(self.filename, "w", ...)\<close> gives: the bytes that have
  reached the file on disk, and the bytes that the file object still holds
  back. The code never flushes, so a write only adds to the bytes held back;
  the file object passes them on when more than \<open>bs\<close> of them are pending
  (\<open>bs\<close> is the buffer size, 8192 unless the platform says otherwise), and
  \<^verbatim>\<open>close\<close>, at the end of the \<^verbatim>\<open>with\<close> block, passes on the rest. (The two
  buffers of Python's text files are taken as one. The properties below use
  only that no byte is lost or moved, that nothing is passed on while at most
  \<open>bs\<close> bytes are pending, and that \<^verbatim>\<open>close\<close> passes on everything.)
\<close>

record outfile =
  disk :: string
  pending :: string

definition open_w :: outfile where
  "open_w = \<lparr>disk = [], pending = []\<rparr>"

definition file_write :: "nat \<Rightarrow> string \<Rightarrow> outfile \<Rightarrow> outfile" where
  "file_write bs s f =
     (if bs < length (pending f @ s)
      then f\<lparr>disk := disk f @ pending f @ s, pending := []\<rparr>
      else f\<lparr>pending := pending f @ s\<rparr>)"

definition file_close :: "outfile \<Rightarrow> outfile" where
  "file_close f = f\<lparr>disk := disk f @ pending f, pending := []\<rparr>"

text \<open>
  \<^verbatim>\<open>writer.writeheader()\<close>, the first write to the file: with the encoding
  \<^verbatim>\<open>utf-8-sig\<close> it starts with the byte order mark.
\<close>

definition bom :: string where
  "bom = [CHR 0xEF, CHR 0xBB, CHR 0xBF]"

definition writeheader :: "nat \<Rightarrow> outfile \<Rightarrow> outfile" where
  "writeheader bs f = file_write bs (bom @ csv_line fieldnames) f"

text \<open>
  What the writer sees of the queue: for its \<open>k\<close>-th call of \<^verbatim>\<open>get\<close>, after how
  many seconds of waiting the next item turns up, or that none ever does.
  \<^verbatim>\<open>queue.get(timeout=t)\<close> hands the item over when it turns up within \<open>t\<close>
  seconds and raises \<^verbatim>\<open>queue.Empty\<close> otherwise.
\<close>

datatype arrival = Arrives nat qitem | Never

datatype got = Item qitem | Empty

definition queue_get :: "arrival \<Rightarrow> nat \<Rightarrow> got" where
  "queue_get a timeout =
     (case a of
        Arrives d x \<Rightarrow> if d \<le> timeout then Item x else Empty
      | Never \<Rightarrow> Empty)"

text \<open>The two lines the writer can print when it leaves its loop.\<close>

datatype writer_exit = StopSignal | IdleTimeout

text \<open>
  The loop of \<^verbatim>\<open>WriterProcess.run\<close> (lines 218 to 230), from the \<open>k\<close>-th call
  of \<^verbatim>\<open>get\<close> on, with the file as it is then. It may go on for ever, so its
  value is an \<open>option\<close>: \<open>None\<close> when it never leaves the loop.
\<close>

partial_function (option) writer_loop ::
  "nat \<Rightarrow> (nat \<Rightarrow> arrival) \<Rightarrow> nat \<Rightarrow> outfile \<Rightarrow> (outfile \<times> writer_exit) option" where
  "writer_loop bs src k f =
     (case queue_get (src k) 60 of
        Item x \<Rightarrow>
          (case x of
             STOP \<Rightarrow> Some (f, StopSignal)
           | Rec r \<Rightarrow> writer_loop bs src (Suc k) (file_write bs (csv_line (writerow r)) f))
      | Empty \<Rightarrow> Some (f, IdleTimeout))"

declare writer_loop.simps [code]

text \<open>
  \<^verbatim>\<open>WriterProcess.run\<close>: it opens the file, writes the header, runs the loop
  and, when the loop is left, leaves the \<^verbatim>\<open>with\<close> block, which closes the file.
\<close>

definition WriterProcess_run ::
  "nat \<Rightarrow> (nat \<Rightarrow> arrival) \<Rightarrow> (outfile \<times> writer_exit) option" where
  "WriterProcess_run bs src =
     (case writer_loop bs src 0 (writeheader bs open_w) of
        None \<Rightarrow> None
      | Some (f, e) \<Rightarrow> Some (file_close f, e))"

subsection \<open>generate\_html\_from\_csv\<close>

text \<open>
  The CSV file as \<^verbatim>\<open>csv.reader\<close> reads it: \<open>None\<close> when there is no such file
  (\<^verbatim>\<open>FileNotFoundError\<close>), else its rows; \<^verbatim>\<open>next(reader)\<close> on a file without
  rows raises \<^verbatim>\<open>StopIteration\<close>. Both are caught, and then \<^verbatim>\<open>headers\<close> is
  still empty and gets the fixed names. The page is the list of the strings
  that are joined with newlines and written.
\<close>

datatype read_error = FileNotFoundError | StopIteration

definition read_csv :: "string list list option \<Rightarrow> read_error + string list \<times> string list list" where
  "read_csv f =
     (case f of
        None \<Rightarrow> Inl FileNotFoundError
      | Some [] \<Rightarrow> Inl StopIteration
      | Some (h # rs) \<Rightarrow> Inr (h, rs))"

definition html_head :: "string list" where
  "html_head =
     [
      ''<!DOCTYPE html>'',
      ''<html lang='' @ [CHR 0x22] @ ''zh-CN'' @ [CHR 0x22] @ ''>'',
      ''<head>'',
      ''    <meta charset='' @ [CHR 0x22] @ ''UTF-8'' @ [CHR 0x22] @ ''>'',
      ''<meta name='' @ [CHR 0x22] @ ''viewport'' @ [CHR 0x22] @ '' content=''
        @ [CHR 0x22] @ ''width=device-width, initial-scale=1.0'' @ [CHR 0x22] @ ''>'',
      ''<title>'' @ [CHR 0xE6, CHR 0x8B, CHR 0x9B, CHR 0xE8, CHR 0x81, CHR 0x98, CHR 0xE6,
        CHR 0x95, CHR 0xB0, CHR 0xE6, CHR 0x8D, CHR 0xAE, CHR 0xE5, CHR 0xB1, CHR 0x95,
        CHR 0xE7, CHR 0xA4, CHR 0xBA] @ ''</title>'',
      ''<style>'',
      ''body { font-family: Arial, sans-serif; margin: 20px; }'',
      ''table { width: 100%; border-collapse: collapse; margin-top: 20px; }'',
      ''th, td { border: 1px solid #ddd; padding: 8px; text-align: left; }'',
      ''th { background-color: #f2f2f2; }'',
      ''tr:nth-child(even) { background-color: #f9f9f9; }'',
      ''tr:hover { background-color: #f1f1f1; }'',
      ''</style>'',
      ''</head>'',
      ''<body>'',
      ''<h1>'' @ [CHR 0xE6, CHR 0x8B, CHR 0x9B, CHR 0xE8, CHR 0x81, CHR 0x98, CHR 0xE6,
        CHR 0x95, CHR 0xB0, CHR 0xE6, CHR 0x8D, CHR 0xAE, CHR 0xE5, CHR 0xB1, CHR 0x95,
        CHR 0xE7, CHR 0xA4, CHR 0xBA] @ ''</h1>'',
      ''<table>'',
      ''<thead>'',
      ''<tr>''
     ]"

definition navbar :: string where
  "navbar =
     [CHR 0x0A] @ ''        <!-- '' @ [CHR 0xE9, CHR 0x80, CHR 0x9A, CHR 0xE7, CHR 0x94,
     CHR 0xA8, CHR 0xE5, CHR 0xAF, CHR 0xBC, CHR 0xE8, CHR 0x88, CHR 0xAA, CHR 0xE6,
     CHR 0xA0, CHR 0x8F] @ '' -->'' @ [CHR 0x0A] @ ''        <div class='' @ [CHR 0x22]
     @ ''navbar'' @ [CHR 0x22] @ ''>'' @ [CHR 0x0A] @ ''            <a href='' @ [CHR 0x22]
     @ ''/'' @ [CHR 0x22] @ '' class='' @ [CHR 0x22] @ ''nav-button'' @ [CHR 0x22] @ ''>''
     @ [CHR 0xE8, CHR 0xBF, CHR 0x94, CHR 0xE5, CHR 0x9B, CHR 0x9E, CHR 0xE4, CHR 0xB8,
     CHR 0xBB, CHR 0xE9, CHR 0xA1, CHR 0xB5] @ ''</a>'' @ [CHR 0x0A] @ ''        </div>''
     @ [CHR 0x0A] @ ''        <style>'' @ [CHR 0x0A] @ ''            .navbar {''
     @ [CHR 0x0A] @ ''                position: fixed; top: 0; left: 0; width: 100%;''
     @ [CHR 0x0A] @ ''                background-color: #333; padding: 10px 20px;''
     @ [CHR 0x0A]
     @ ''                box-shadow: 0 2px 5px rgba(0,0,0,0.2); z-index: 1000;''
     @ [CHR 0x0A] @ ''                box-sizing: border-box; /* '' @ [CHR 0xE7, CHR 0xA1,
     CHR 0xAE, CHR 0xE4, CHR 0xBF, CHR 0x9D] @ '' padding '' @ [CHR 0xE4, CHR 0xB8,
     CHR 0x8D, CHR 0xE4, CHR 0xBC, CHR 0x9A, CHR 0xE6, CHR 0x92, CHR 0x91, CHR 0xE5,
     CHR 0xA4, CHR 0xA7, CHR 0xE5, CHR 0xAE, CHR 0xBD, CHR 0xE5, CHR 0xBA, CHR 0xA6]
     @ '' */'' @ [CHR 0x0A] @ ''            }'' @ [CHR 0x0A] @ ''            .nav-button {''
     @ [CHR 0x0A]
     @ ''                color: white; text-decoration: none; padding: 8px 15px;''
     @ [CHR 0x0A]
     @ ''                border-radius: 5px; transition: background-color 0.3s;''
     @ [CHR 0x0A] @ ''            }'' @ [CHR 0x0A]
     @ ''            .nav-button:hover { background-color: #555; }'' @ [CHR 0x0A]
     @ ''            /* '' @ [CHR 0xE4, CHR 0xB8, CHR 0xBA, CHR 0xE9, CHR 0xA1, CHR 0xB5,
     CHR 0xE9, CHR 0x9D, CHR 0xA2, CHR 0xE4, CHR 0xB8, CHR 0xBB, CHR 0xE4, CHR 0xBD,
     CHR 0x93, CHR 0xE5, CHR 0xA2, CHR 0x9E, CHR 0xE5, CHR 0x8A, CHR 0xA0, CHR 0xE4,
     CHR 0xB8, CHR 0x8A, CHR 0xE8, CHR 0xBE, CHR 0xB9, CHR 0xE8, CHR 0xB7, CHR 0x9D,
     CHR 0xEF, CHR 0xBC, CHR 0x8C, CHR 0xE9, CHR 0x98, CHR 0xB2, CHR 0xE6, CHR 0xAD,
     CHR 0xA2, CHR 0xE8, CHR 0xA2, CHR 0xAB, CHR 0xE5, CHR 0xAF, CHR 0xBC, CHR 0xE8,
     CHR 0x88, CHR 0xAA, CHR 0xE6, CHR 0xA0, CHR 0x8F, CHR 0xE9, CHR 0x81, CHR 0xAE,
     CHR 0xE6, CHR 0x8C, CHR 0xA1] @ '' */'' @ [CHR 0x0A]
     @ ''            body { padding-top: 60px; }'' @ [CHR 0x0A] @ ''        </style>''
     @ [CHR 0x0A] @ ''        ''"

definition generate_html_from_csv :: "string list list option \<Rightarrow> string list" where
  "generate_html_from_csv csv_file =
     (let (headers, rows) =
            (case read_csv csv_file of
               Inr (hs, rs) \<Rightarrow> (hs, rs)
             | Inl e \<Rightarrow>
                 (let headers = [] in
                  (if headers = []
                   then [''provider'', ''keyword'', ''title'', ''place'', ''salary'',
                         ''experience'', ''education'', ''companytype'', ''industry'',
                         ''description'']
                   else headers, [])))
      in html_head
         @ map (\<lambda>header. ''<th>'' @ header @ ''</th>'') headers
         @ [''</tr>'', ''</thead>'', ''<tbody>'']
         @ concat (map (\<lambda>row. [''<tr>''] @ map (\<lambda>c. ''<td>'' @ c @ ''</td>'') row @ [''</tr>'']) rows)
         @ [''</tbody>'', ''</table>'', ''</body>'', navbar, ''</html>''])"

subsection \<open>main: once, or on a timer\<close>

text \<open>
  A \<^verbatim>\<open>datetime\<close> with its seven fields; Python compares two of them field by
  field from the year down. \<^verbatim>\<open>replace\<close> sets the hour and the minute, clears
  the second and the microsecond, and raises \<^verbatim>\<open>ValueError\<close> for an hour outside
  0..23 or a minute outside 0..59.
\<close>

record datetime =
  year :: int
  month :: int
  day :: int
  hour :: int
  minute :: int
  second :: int
  microsecond :: int

definition fields :: "datetime \<Rightarrow> int list" where
  "fields t = [year t, month t, day t, hour t, minute t, second t, microsecond t]"

fun lex_less :: "int list \<Rightarrow> int list \<Rightarrow> bool" where
  "lex_less (x # xs) (y # ys) = (x < y \<or> (x = y \<and> lex_less xs ys))"
| "lex_less xs ys = False"

definition dt_less :: "datetime \<Rightarrow> datetime \<Rightarrow> bool" where
  "dt_less a b = lex_less (fields a) (fields b)"

definition dt_le :: "datetime \<Rightarrow> datetime \<Rightarrow> bool" where
  "dt_le a b = (dt_less a b \<or> fields a = fields b)"

datatype value_error = ValueError

definition replace :: "datetime \<Rightarrow> int \<Rightarrow> int \<Rightarrow> value_error + datetime" where
  "replace t h m =
     (if 0 \<le> h \<and> h < 24 \<and> 0 \<le> m \<and> m < 60
      then Inr (t\<lparr>hour := h, minute := m, second := 0, microsecond := 0\<rparr>)
      else Inl ValueError)"

text \<open>
  What \<^verbatim>\<open>main\<close> does to the outside: it runs a batch, or it calls
  \<^verbatim>\<open>time.sleep\<close> with a number of seconds.
\<close>

datatype effect = RunCrawlOnce | Sleep int

text \<open>
  One turn of the timer loop (lines 437 to 449) at the time \<open>now\<close>, as the
  calls it makes: the batch and \<^verbatim>\<open>time.sleep(interval_minutes * 60)\<close> inside
  the window, \<^verbatim>\<open>time.sleep(60)\<close> outside it.
\<close>

definition timer_turn :: "timer_settings \<Rightarrow> datetime \<Rightarrow> value_error + effect list" where
  "timer_turn ts now =
     (case replace now (begin_hour ts) (begin_minute ts) of
        Inl e \<Rightarrow> Inl e
      | Inr begin_time \<Rightarrow>
          (case replace now (end_hour ts) (end_minute ts) of
             Inl e \<Rightarrow> Inl e
           | Inr end_time \<Rightarrow>
               Inr (if dt_le begin_time now \<and> dt_less now end_time
                    then [RunCrawlOnce, Sleep (interval ts * 60)]
                    else [Sleep 60])))"

text \<open>
  \<^verbatim>\<open>time.sleep\<close> raises \<^verbatim>\<open>ValueError\<close> for a negative number; \<open>sleeps_ok\<close>
  says that no call of a turn does.
\<close>

definition sleeps_ok :: "effect list \<Rightarrow> bool" where
  "sleeps_ok es = list_all (\<lambda>e. case e of RunCrawlOnce \<Rightarrow> True | Sleep n \<Rightarrow> 0 \<le> n) es"

text \<open>
  The timer loop never ends by itself; \<open>timer_loop\<close> with \<open>n\<close> is what its
  first \<open>n\<close> turns do, the \<open>k\<close>-th turn reading the clock as \<open>clock k\<close>. An
  exception in a turn (of \<^verbatim>\<open>replace\<close>, or of \<^verbatim>\<open>time.sleep\<close>) ends the loop
  and \<^verbatim>\<open>main\<close>.
\<close>

fun timer_loop :: "timer_settings \<Rightarrow> (nat \<Rightarrow> datetime) \<Rightarrow> nat \<Rightarrow> nat \<Rightarrow> value_error + effect list" where
  "timer_loop ts clock k 0 = Inr []"
| "timer_loop ts clock k (Suc n) =
     (case timer_turn ts (clock k) of
        Inl e \<Rightarrow> Inl e
      | Inr es \<Rightarrow>
          if \<not> sleeps_ok es then Inl ValueError
          else
            (case timer_loop ts clock (Suc k) n of
               Inl e \<Rightarrow> Inl e
             | Inr es' \<Rightarrow> Inr (es @ es')))"

text \<open>
  \<^verbatim>\<open>main\<close>: without an enabled timer (the key \<^verbatim>\<open>timer\<close> absent counts as
  disabled) one batch and the end; with it, the loop, here for \<open>n\<close> turns.
\<close>

definition main :: "dict_parameter \<Rightarrow> (nat \<Rightarrow> datetime) \<Rightarrow> nat \<Rightarrow> value_error + effect list" where
  "main p clock n =
     (case timer_arg p of
        None \<Rightarrow> Inr [RunCrawlOnce]
      | Some ts \<Rightarrow>
          if \<not> enable ts then Inr [RunCrawlOnce]
          else timer_loop ts clock 0 n)"

section \<open>Notions used to state the properties\<close>

subsection \<open>Why the worker loop stops\<close>

text \<open>
  The three ways a task can end, under the names the specification gives them,
  and the rule of the specification for one turn of the worker loop: the limit
  is looked at first, then whether the response signals an error (it is an
  object with the key \<^verbatim>\<open>error\<close>), then whether the page has no entries (its
  \<^verbatim>\<open>items\<close> can be read and are none); \<open>None\<close> when none of the three holds,
  and so also when there is no response or none that can be read. This
  definition follows the words of the specification; it is compared with
  \<open>turn\<close>, which follows the code.
\<close>

datatype terminal_status = Exhausted | LimitReached | FetchError

definition signals_error :: "data \<Rightarrow> bool" where
  "signals_error d =
     (case d of
        DataObject err rb \<Rightarrow> err \<noteq> None
      | DataList b \<Rightarrow> False
      | DataText b \<Rightarrow> False
      | DataScalar \<Rightarrow> False)"

definition no_entries :: "data \<Rightarrow> bool" where
  "no_entries d = (case get_items d of Inl e \<Rightarrow> False | Inr v \<Rightarrow> falsy v)"

definition first_cause :: "driver \<Rightarrow> int \<Rightarrow> spider \<Rightarrow> terminal_status option" where
  "first_cause drv page sp =
     (if limit sp \<le> count sp then Some LimitReached
      else
        (case request_json drv (job sp) page (city_code sp) of
           Inl e \<Rightarrow> None
         | Inr d \<Rightarrow>
             if signals_error d then Some FetchError
             else if no_entries d then Some Exhausted
             else None))"

text \<open>
  The code tells the three apart only by the line it prints before \<^verbatim>\<open>break\<close>.
  \<open>stopped_by\<close> reads the way a turn ended off the last line printed; a turn
  that goes on or that ends with an exception has no cause.
\<close>

fun cause_of :: "message \<Rightarrow> terminal_status option" where
  "cause_of (LimitMsg c j n l) = Some LimitReached"
| "cause_of (ErrorMsg e) = Some FetchError"
| "cause_of (DoneMsg c j) = Some Exhausted"
| "cause_of (ProgressMsg c j p n l) = None"
| "cause_of (CityWarning c) = None"

fun stopped_by :: "turn_result \<Rightarrow> terminal_status option" where
  "stopped_by (Break sp') = (if printed sp' = [] then None else cause_of (last (printed sp')))"
| "stopped_by (Continue sp') = None"
| "stopped_by (Raise e sp') = None"

text \<open>
  The page number and the spider at the start of turn \<open>k\<close> of the loop (turns
  are counted from 0); \<open>None\<close> when the loop has been left before.
\<close>

fun at_turn :: "driver \<Rightarrow> int \<Rightarrow> spider \<Rightarrow> nat \<Rightarrow> (int \<times> spider) option" where
  "at_turn drv page sp 0 = Some (page, sp)"
| "at_turn drv page sp (Suc k) =
     (case turn drv page sp of
        Break sp' \<Rightarrow> None
      | Raise e sp' \<Rightarrow> None
      | Continue sp' \<Rightarrow> at_turn drv (page + 1) sp' k)"

text \<open>
  A response that the code can read to the end: an object that has the key
  \<^verbatim>\<open>error\<close>, or whose \<^verbatim>\<open>items\<close> are an array of objects or a value taken as
  false. The two shapes that the interface of the API names are among them.
\<close>

fun is_entry :: "item_value \<Rightarrow> bool" where
  "is_entry (Entry e) = True"
| "is_entry NotAnObject = False"

definition readable :: "data \<Rightarrow> bool" where
  "readable d =
     (signals_error d
      \<or> (case get_items d of
            Inl e \<Rightarrow> False
          | Inr v \<Rightarrow>
              (case v of
                 ItemList xs \<Rightarrow> list_all is_entry xs
               | FalsyValue \<Rightarrow> True
               | TextOrObject \<Rightarrow> False
               | OtherScalar \<Rightarrow> False)))"

subsection \<open>The concurrent batch: invariant and measure\<close>

text \<open>
  What holds in every state of the concurrent batch, and a number that every
  step makes smaller (so that no batch of terminating processes runs for ever).
\<close>

definition launcher_inv :: "launcher \<Rightarrow> bool" where
  "launcher_inv s \<longleftrightarrow>
     joined s \<le> length (processes s)
     \<and> (\<forall>i < joined s. processes s ! i = [])
     \<and> (\<forall>p \<in> set (processes s). STOP \<notin> set p)
     \<and> (\<exists>rs. shared_queue s = map Rec rs @ (if stop_sent s then [STOP] else []))
     \<and> (stop_sent s \<longrightarrow> to_start s = [] \<and> joined s = length (processes s))"

definition launcher_measure :: "browsers \<Rightarrow> config \<Rightarrow> int \<Rightarrow> launcher \<Rightarrow> nat" where
  "launcher_measure br cfg lim s =
     sum_list (map (\<lambda>t. 2 * length (process_puts br cfg lim t) + 3) (to_start s))
     + sum_list (map (\<lambda>p. 2 * length p) (processes s))
     + (length (processes s) - joined s)
     + (if stop_sent s then 0 else 1)"

subsection \<open>The data rows of a page\<close>

text \<open>The lines of a generated page that are table cells of data rows.\<close>

definition data_lines :: "string list \<Rightarrow> string list" where
  "data_lines page = filter (\<lambda>l. take 4 l = ''<td>'') page"

subsection \<open>What the writer pops\<close>

text \<open>
  Whether a result of \<^verbatim>\<open>get\<close> makes the writer leave its loop, and how. The
  file after \<open>d\<close> more turns of the loop that starts at call \<open>k\<close> with the file
  \<open>f\<close>; \<open>None\<close> when the loop is left before. The file as it is when the writer
  makes its \<open>i\<close>-th call of \<^verbatim>\<open>get\<close> (calls are counted from 0). And the bytes
  that the first \<open>n\<close> calls of \<^verbatim>\<open>get\<close> hand to the file, one line for each
  record popped, in the order popped.
\<close>

fun leaves :: "got \<Rightarrow> writer_exit option" where
  "leaves Empty = Some IdleTimeout"
| "leaves (Item STOP) = Some StopSignal"
| "leaves (Item (Rec r)) = None"

fun after_pops :: "nat \<Rightarrow> (nat \<Rightarrow> arrival) \<Rightarrow> nat \<Rightarrow> nat \<Rightarrow> outfile \<Rightarrow> outfile option" where
  "after_pops bs src k 0 f = Some f"
| "after_pops bs src k (Suc d) f =
     (case queue_get (src k) 60 of
        Item x \<Rightarrow>
          (case x of
             STOP \<Rightarrow> None
           | Rec r \<Rightarrow> after_pops bs src (Suc k) d (file_write bs (csv_line (writerow r)) f))
      | Empty \<Rightarrow> None)"

definition file_at :: "nat \<Rightarrow> (nat \<Rightarrow> arrival) \<Rightarrow> nat \<Rightarrow> outfile option" where
  "file_at bs src i = after_pops bs src 0 i (writeheader bs open_w)"

fun line_of :: "got \<Rightarrow> string" where
  "line_of (Item (Rec r)) = csv_line (writerow r)"
| "line_of g = []"

definition written_text :: "(nat \<Rightarrow> arrival) \<Rightarrow> nat \<Rightarrow> nat \<Rightarrow> string" where
  "written_text src k n = concat (map (\<lambda>i. line_of (queue_get (src i) 60)) [k..<n])"

section \<open>Concrete inputs\<close>

text \<open>
  An entry that has a name and nothing else, one that has nothing at all and
  one that has every field; an answer of the API with the given entries.
\<close>

definition entry_named :: "string \<Rightarrow> job_entry" where
  "entry_named t =
     \<lparr>jobName = Some t, jobAreaString = None, provideSalaryString = None,
      workYearString = None, degreeString = None, companyTypeString = None,
      companyIndustryType1Str = None, companyIndustryType2Str = None, jobDescribe = None\<rparr>"

definition absent_entry :: job_entry where
  "absent_entry =
     \<lparr>jobName = None, jobAreaString = None, provideSalaryString = None,
      workYearString = None, degreeString = None, companyTypeString = None,
      companyIndustryType1Str = None, companyIndustryType2Str = None, jobDescribe = None\<rparr>"

definition full_entry :: job_entry where
  "full_entry =
     \<lparr>jobName = Some ''Java Engineer'', jobAreaString = Some ''Beijing'',
      provideSalaryString = Some ''1-2'', workYearString = Some ''3'',
      degreeString = Some ''BSc'', companyTypeString = Some ''private'',
      companyIndustryType1Str = Some ''Internet'', companyIndustryType2Str = Some ''Software'',
      jobDescribe = Some ''Writes code''\<rparr>"

definition page_of :: "item_value list \<Rightarrow> data" where
  "page_of xs = DataObject None (Object (ResultBody (Object (JobNode (Some (ItemList xs))))))"

definition five_entries :: "item_value list" where
  "five_entries = [Entry (entry_named ''a''), Entry (entry_named ''b''), Entry (entry_named ''c''),
     Entry (entry_named ''d''), Entry (entry_named ''e'')]"

text \<open>
  Five browser sessions. A site with five entries on page 1 and none after
  it. A session whose every request comes back as an object with the key
  \<^verbatim>\<open>error\<close>. A site with the same page 1 whose page 2 is
  \<^verbatim>\<open>{"resultbody": null}\<close>. A site whose pages hold an entry and then a
  \<^verbatim>\<open>null\<close>. And a session that cannot open a page.
\<close>

definition five_then_empty :: driver where
  "five_then_empty =
     \<lparr>driver_get = (\<lambda>url. None),
      execute_async_script =
        (\<lambda>kw page code. Inr (if page = 1 then page_of five_entries else page_of []))\<rparr>"

definition failing :: driver where
  "failing =
     \<lparr>driver_get = (\<lambda>url. None),
      execute_async_script =
        (\<lambda>kw page code. Inr (DataObject (Some ''TypeError: Failed to fetch'') Absent))\<rparr>"

definition null_body_on_page_two :: driver where
  "null_body_on_page_two =
     \<lparr>driver_get = (\<lambda>url. None),
      execute_async_script =
        (\<lambda>kw page code. Inr (if page = 1 then page_of five_entries
                               else DataObject None NotObject))\<rparr>"

definition bad_entry :: driver where
  "bad_entry =
     \<lparr>driver_get = (\<lambda>url. None),
      execute_async_script =
        (\<lambda>kw page code. Inr (page_of [Entry (entry_named ''a''), NotAnObject]))\<rparr>"

definition no_session :: driver where
  "no_session =
     \<lparr>driver_get = (\<lambda>url. Some (WebDriverException ''invalid session id'')),
      execute_async_script =
        (\<lambda>kw page code. Inl (WebDriverException ''invalid session id''))\<rparr>"

definition spider_of :: "int \<Rightarrow> spider" where
  "spider_of lim = Job51Spider ''Beijing'' ''Java'' ''010000'' [] lim"

text \<open>
  The spider with the limit 30 after the page of five entries, and the one
  with the limit 30 after one entry.
\<close>

definition after_page_one :: spider where
  "after_page_one =
     \<lparr>city = ''Beijing'', job = ''Java'', city_code = ''010000'', limit = 30, count = 5,
      queue = map (\<lambda>t. Rec (make_result (spider_of 30) (entry_named t)))
                [''a'', ''b'', ''c'', ''d'', ''e''],
      printed = [ProgressMsg ''Beijing'' ''Java'' 1 5 30]\<rparr>"

definition after_one_entry :: spider where
  "after_one_entry =
     \<lparr>city = ''Beijing'', job = ''Java'', city_code = ''010000'', limit = 30, count = 1,
      queue = [Rec (make_result (spider_of 30) (entry_named ''a''))], printed = []\<rparr>"

text \<open>A city table with one city, and a parameter dictionary with nothing set.\<close>

definition one_city :: config where
  "one_city section =
     (if section = ''citycode''
      then Some (\<lambda>opt. if opt = ''beijing'' then Some ''010000'' else None)
      else None)"

definition no_parameters :: dict_parameter where
  "no_parameters = \<lparr>city_arg = None, job_arg = None, limit_arg = None,
     concurrent_arg = None, timer_arg = None\<rparr>"

text \<open>
  A batch of one task whose process puts one record: every task gets the site
  of five entries, the limit is 1, the mode is left at its default.
  \<open>one_task_done\<close> is its state after the start, the put, the join and line 400.
\<close>

definition every_browser :: browsers where
  "every_browser c j = Some five_then_empty"

definition no_cities :: config where
  "no_cities section = None"

definition the_record :: result where
  "the_record = make_result (Job51Spider ''c'' ''j'' ''000000'' [] 1) (entry_named ''a'')"

definition one_task :: dict_parameter where
  "one_task = \<lparr>city_arg = Some [''c''], job_arg = Some [''j''], limit_arg = Some 1,
     concurrent_arg = None, timer_arg = None\<rparr>"

definition one_task_done :: launcher where
  "one_task_done =
     \<lparr>to_start = [], processes = [[]], joined = 1,
      shared_queue = [Rec the_record, STOP], stop_sent = True\<rparr>"

text \<open>
  A record whose title holds a comma and whose description holds double
  quotes. Two queues as the writer sees them: a record after one second, that
  record after two more and the stop signal after sixty; the same with the
  stop signal a second too late.
\<close>

definition quoted_record :: result where
  "quoted_record =
     \<lparr>provider = ''p'', keyword = ''k'', title = Some ''a,b'', place = None, salary = None,
      experience = None, education = None, companytype = None, industry = ''x / y'',
      description = Some (''say '' @ [CHR 0x22] @ ''hi'' @ [CHR 0x22])\<rparr>"

definition feed_stop :: "nat \<Rightarrow> arrival" where
  "feed_stop k =
     (if k = 0 then Arrives 1 (Rec the_record)
      else if k = 1 then Arrives 2 (Rec quoted_record)
      else if k = 2 then Arrives 60 STOP
      else Never)"

definition feed_idle :: "nat \<Rightarrow> arrival" where
  "feed_idle k =
     (if k = 0 then Arrives 1 (Rec the_record)
      else if k = 1 then Arrives 2 (Rec quoted_record)
      else if k = 2 then Arrives 61 STOP
      else Never)"

text \<open>A queue on which that record turns up at every call, without end.\<close>

definition endless :: "nat \<Rightarrow> arrival" where
  "endless k = Arrives 0 (Rec the_record)"

text \<open>
  The bytes of the header line and of the lines of the two records, as they
  are expected in the file.
\<close>

definition crlf :: string where
  "crlf = [CHR 0x0D, CHR 0x0A]"

definition header_line :: string where
  "header_line = ''provider,keyword,title,place,salary,experience,education,companytype,industry,description'' @ crlf"

definition the_record_line :: string where
  "the_record_line = provider_name @ '',j,a,,,,,,None / None,'' @ crlf"

definition quoted_record_line :: string where
  "quoted_record_line =
     ''p,k,'' @ [CHR 0x22] @ ''a,b'' @ [CHR 0x22] @ '',,,,,,x / y,''
       @ [CHR 0x22] @ ''say '' @ [CHR 0x22, CHR 0x22] @ ''hi'' @ [CHR 0x22, CHR 0x22, CHR 0x22]
       @ crlf"

text \<open>The window from 02:00 to 05:00 with an interval of sixty minutes, and a day's times.\<close>

definition night_window :: timer_settings where
  "night_window = \<lparr>enable = True, begin_hour = 2, begin_minute = 0, end_hour = 5,
     end_minute = 0, interval = 60\<rparr>"

definition at_time :: "int \<Rightarrow> int \<Rightarrow> int \<Rightarrow> int \<Rightarrow> datetime" where
  "at_time h m s us = \<lparr>year = 2024, month = 5, day = 17, hour = h, minute = m, second = s,
     microsecond = us\<rparr>"

definition three_ticks :: "nat \<Rightarrow> datetime" where
  "three_ticks k =
     (if k = 0 then at_time 1 59 59 999999
      else if k = 1 then at_time 2 0 0 0
      else at_time 3 10 0 5)"

code_pred launch_step .

code_pred run_crawl_once .

section \<open>Lemmas\<close>

subsection \<open>The worker loop\<close>

lemma stopped_by_turn: "stopped_by (turn drv p s) = first_cause drv p s"
  by (auto simp: turn_def first_cause_def signals_error_def no_entries_def error_in_def
      error_text_def get_items_def
      split: sum.splits bool.splits prod.splits option.splits data.splits)

lemma is_Break_turn: "(\<exists>s'. turn drv p s = Break s') \<longleftrightarrow> first_cause drv p s \<noteq> None"
  by (auto simp: turn_def first_cause_def signals_error_def no_entries_def error_in_def
      error_text_def get_items_def
      split: sum.splits bool.splits prod.splits option.splits data.splits)

lemma for_jobs_no_raise: "list_all is_entry xs \<Longrightarrow> snd (for_jobs xs sp) = None"
proof (induction xs arbitrary: sp)
  case Nil
  show ?case by simp
next
  case (Cons x xs)
  then show ?case by (cases x) auto
qed

lemma turn_readable:
  assumes "request_json drv (job sp) page (city_code sp) = Inr d" and "readable d"
  shows "turn drv page sp \<noteq> Raise e sp'"
proof (cases "limit sp \<le> count sp")
  case True
  then show ?thesis by (simp add: turn_def)
next
  case False
  show ?thesis
  proof (cases "signals_error d")
    case True
    then obtain msg rb where "d = DataObject (Some msg) rb"
      by (auto simp: signals_error_def split: data.splits)
    with False assms(1) show ?thesis by (simp add: turn_def error_in_def error_text_def)
  next
    case ne: False
    with assms(2) obtain v where g: "get_items d = Inr v"
      and v: "(\<exists>xs. v = ItemList xs \<and> list_all is_entry xs) \<or> v = FalsyValue"
      by (auto simp: readable_def split: sum.splits items_value.splits)
    from g obtain err rb where d: "d = DataObject err rb"
      by (cases d) (auto simp: get_items_def)
    with ne have e: "error_in d = Inr False" by (simp add: signals_error_def error_in_def)
    from v show ?thesis
    proof
      assume "v = FalsyValue"
      with False assms(1) e g show ?thesis by (simp add: turn_def falsy_def)
    next
      assume "\<exists>xs. v = ItemList xs \<and> list_all is_entry xs"
      then obtain xs where xs: "v = ItemList xs" "list_all is_entry xs" by blast
      obtain s1 x1 where fj: "for_jobs xs sp = (s1, x1)" by (cases "for_jobs xs sp")
      with for_jobs_no_raise [OF xs(2), of sp] have "x1 = None" by simp
      with False assms(1) e g xs fj show ?thesis
        by (simp add: turn_def falsy_def walk_def)
    qed
  qed
qed

lemma run_loop_ends:
  "\<exists>n pn sn. at_turn drv page sp n = Some (pn, sn)
      \<and> (\<forall>k<n. \<exists>pk sk. at_turn drv page sp k = Some (pk, sk) \<and> first_cause drv pk sk = None)
      \<and> ((\<exists>s'. turn drv pn sn = Break s' \<and> run_loop drv page sp = (None, s'))
           \<or> (\<exists>e s'. turn drv pn sn = Raise e s' \<and> run_loop drv page sp = (Some e, s')))"
proof (induction drv page sp rule: run_loop.induct)
  case (1 drv page sp)
  show ?case
  proof (cases "turn drv page sp")
    case (Break s')
    then have "turn drv page sp = Break s' \<and> run_loop drv page sp = (None, s')"
      by (simp add: run_loop.simps)
    then show ?thesis
      by (intro exI [of _ 0] exI [of _ page] exI [of _ sp]) simp
  next
    case (Raise e s')
    then have "turn drv page sp = Raise e s' \<and> run_loop drv page sp = (Some e, s')"
      by (simp add: run_loop.simps)
    then show ?thesis
      by (intro exI [of _ 0] exI [of _ page] exI [of _ sp]) simp
  next
    case (Continue s')
    from "1" [OF Continue] obtain n pn sn where
      a: "at_turn drv (page + 1) s' n = Some (pn, sn)" and
      c: "\<forall>k<n. \<exists>pk sk. at_turn drv (page + 1) s' k = Some (pk, sk) \<and> first_cause drv pk sk = None"
      and b: "(\<exists>t. turn drv pn sn = Break t \<and> run_loop drv (page + 1) s' = (None, t))
           \<or> (\<exists>e t. turn drv pn sn = Raise e t \<and> run_loop drv (page + 1) s' = (Some e, t))"
      by blast
    have r: "run_loop drv page sp = run_loop drv (page + 1) s'"
      using Continue by (simp add: run_loop.simps)
    have f: "first_cause drv page sp = None"
      using is_Break_turn [of drv page sp] Continue by auto
    have "\<forall>k<Suc n. \<exists>pk sk. at_turn drv page sp k = Some (pk, sk) \<and> first_cause drv pk sk = None"
    proof (intro allI impI)
      fix k assume "k < Suc n"
      show "\<exists>pk sk. at_turn drv page sp k = Some (pk, sk) \<and> first_cause drv pk sk = None"
      proof (cases k)
        case 0
        then show ?thesis using f by simp
      next
        case (Suc k')
        with \<open>k < Suc n\<close> c Continue show ?thesis by simp
      qed
    qed
    moreover have "at_turn drv page sp (Suc n) = Some (pn, sn)" using a Continue by simp
    ultimately show ?thesis using b r
      by (intro exI [of _ "Suc n"] exI [of _ pn] exI [of _ sn]) simp
  qed
qed

lemma run_loop_inv:
  "\<exists>rs. queue (snd (run_loop drv page sp)) = queue sp @ map Rec rs
      \<and> count (snd (run_loop drv page sp)) = count sp + int (length rs)
      \<and> count (snd (run_loop drv page sp)) \<le> max (count sp) (limit sp)"
proof (induction drv page sp rule: run_loop.induct)
  case (1 drv page sp)
  show ?case
  proof (cases "turn drv page sp")
    case (Break s')
    have "run_loop drv page sp = (None, s')" using Break by (simp add: run_loop.simps)
    with turn_Break [OF Break] show ?thesis by (intro exI [of _ "[]"]) simp
  next
    case (Raise e s')
    have r: "run_loop drv page sp = (Some e, s')" using Raise by (simp add: run_loop.simps)
    from turn_Raise(4) [OF Raise] obtain rs where
      "queue s' = queue sp @ map Rec rs" "count s' = count sp + int (length rs)"
      "count s' \<le> limit sp" by blast
    with r show ?thesis by (intro exI [of _ rs]) simp
  next
    case (Continue s')
    from "1" [OF Continue] obtain rs where
      q: "queue (snd (run_loop drv (page + 1) s')) = queue s' @ map Rec rs" and
      c: "count (snd (run_loop drv (page + 1) s')) = count s' + int (length rs)" and
      m: "count (snd (run_loop drv (page + 1) s')) \<le> max (count s') (limit s')"
      by blast
    from turn_Continue(8) [OF Continue] obtain rs0 where
      q0: "queue s' = queue sp @ map Rec rs0" and c0: "count s' = count sp + int (length rs0)"
      by blast
    have r: "run_loop drv page sp = run_loop drv (page + 1) s'"
      using Continue by (simp add: run_loop.simps)
    have "count (snd (run_loop drv page sp)) \<le> max (count sp) (limit sp)"
      using m r turn_Continue(1,4) [OF Continue] by simp
    then show ?thesis using q c q0 c0 r by (intro exI [of _ "rs0 @ rs"]) simp
  qed
qed

lemma run_loop_readable:
  assumes "\<forall>pg. \<exists>d. request_json drv (job sp) pg (city_code sp) = Inr d \<and> readable d"
  shows "fst (run_loop drv page sp) = None"
  using assms
proof (induction drv page sp rule: run_loop.induct)
  case (1 drv page sp)
  from "1.prems" obtain d where d: "request_json drv (job sp) page (city_code sp) = Inr d"
    and rd: "readable d" by blast
  show ?case
  proof (cases "turn drv page sp")
    case (Break s')
    then show ?thesis by (simp add: run_loop.simps)
  next
    case (Raise e s')
    with turn_readable [OF d rd, of e s'] show ?thesis by simp
  next
    case (Continue s')
    have "\<forall>pg. \<exists>d. request_json drv (job s') pg (city_code s') = Inr d \<and> readable d"
      using "1.prems" turn_Continue(5,7) [OF Continue] by simp
    from "1.IH" [OF Continue this] show ?thesis using Continue by (simp add: run_loop.simps)
  qed
qed

lemma run_puts:
  "\<exists>rs. queue (snd (run drv sp)) = queue sp @ map Rec rs
      \<and> count (snd (run drv sp)) = count sp + int (length rs)
      \<and> count (snd (run drv sp)) \<le> max (count sp) (limit sp)"
proof (cases "driver_get drv (''https://we.51job.com/pc/search?jobArea='' @ city_code sp)")
  case (Some e)
  then show ?thesis by (intro exI [of _ "[]"]) (simp add: run_def)
next
  case None
  obtain x s' where r: "run_loop drv 1 sp = (x, s')" by (cases "run_loop drv 1 sp")
  then have "snd (run drv sp) = s'" using None by (cases x) (simp_all add: run_def)
  with run_loop_inv [of drv 1 sp] r show ?thesis by simp
qed

subsection \<open>What a task puts\<close>

lemma run_single_task_puts:
  "\<exists>rs. run_single_task chrome cfg c j q lim = q @ map Rec rs"
proof (cases chrome)
  case None
  then show ?thesis by (intro exI [of _ "[]"]) (simp add: run_single_task_def)
next
  case (Some drv)
  from run_puts [of drv "Job51Spider c j (fst (get_city_code cfg c)) q lim"]
  obtain rs where "queue (snd (run drv (Job51Spider c j (fst (get_city_code cfg c)) q lim)))
      = q @ map Rec rs"
    by (auto simp: Job51Spider_def)
  then show ?thesis using Some
    by (intro exI [of _ rs]) (simp add: run_single_task_def Let_def)
qed

lemma process_puts_Rec: "\<exists>rs. process_puts br cfg lim t = map Rec rs"
proof -
  have "SpiderProcess_run chrome cfg c j q lim' = run_single_task chrome cfg c j q lim'"
    for chrome c j q lim'
    by (simp add: SpiderProcess_run_def run_single_task_def)
  then show ?thesis
    using run_single_task_puts [of "br (fst t) (snd t)" cfg "fst t" "snd t" "[]" lim]
    by (simp add: process_puts_def)
qed

lemma serial_tasks_puts:
  "\<exists>rs. serial_tasks br cfg lim ts q = q @ map Rec rs"
proof (induction ts arbitrary: q)
  case Nil
  show ?case by (intro exI [of _ "[]"]) simp
next
  case (Cons t ts)
  obtain c j where t: "t = (c, j)" by (cases t)
  obtain rs0 where a: "run_single_task (br c j) cfg c j q lim = q @ map Rec rs0"
    using run_single_task_puts by blast
  obtain rs where "serial_tasks br cfg lim ts (q @ map Rec rs0) = (q @ map Rec rs0) @ map Rec rs"
    using Cons [of "q @ map Rec rs0"] by blast
  then show ?case using t a by (intro exI [of _ "rs0 @ rs"]) simp
qed

subsection \<open>The concurrent batch\<close>

lemma launcher_inv_init: "launcher_inv (launcher_init ts)"
  by (simp add: launcher_inv_def launcher_init_def)

lemma launcher_inv_step:
  assumes "launch_step br cfg lim s s'" and "launcher_inv s"
  shows "launcher_inv s'"
  using assms
proof (induction rule: launch_step.induct)
  case (start s t ts)
  obtain rs where "process_puts br cfg lim t = map Rec rs" using process_puts_Rec by blast
  with start show ?case
    by (auto simp: launcher_inv_def nth_append)
next
  case (put i s x xs)
  have ns: "\<not> stop_sent s"
  proof
    assume "stop_sent s"
    with put have "processes s ! i = []" by (simp add: launcher_inv_def)
    with put show False by simp
  qed
  have "x \<in> set (processes s ! i)" using put by simp
  moreover have mem: "processes s ! i \<in> set (processes s)" using put(1) by (rule nth_mem)
  ultimately have "x \<noteq> STOP" using put by (auto simp: launcher_inv_def)
  then obtain r where x: "x = Rec r" by (cases x) simp_all
  obtain rs where q: "shared_queue s = map Rec rs"
    using put ns by (auto simp: launcher_inv_def)
  have q': "shared_queue s @ [x] = map Rec (rs @ [r])" using q x by simp
  have sub: "set xs \<subseteq> set (processes s ! i)" using put by auto
  have a: "\<forall>p \<in> set ((processes s)[i := xs]). STOP \<notin> set p"
  proof
    fix p assume "p \<in> set ((processes s)[i := xs])"
    then have "p = xs \<or> p \<in> set (processes s)" using set_update_subset_insert by fastforce
    then show "STOP \<notin> set p"
      using put sub mem by (auto simp: launcher_inv_def)
  qed
  have b: "\<forall>k < joined s. (processes s)[i := xs] ! k = []"
  proof (intro allI impI)
    fix k assume k: "k < joined s"
    then have e: "processes s ! k = []" using put by (simp add: launcher_inv_def)
    then have "k \<noteq> i" using put by auto
    then show "(processes s)[i := xs] ! k = []" using e by simp
  qed
  have j: "joined s \<le> length (processes s)" using put by (simp add: launcher_inv_def)
  show ?case
    unfolding launcher_inv_def using ns a b j q' by (simp del: map_append) blast
next
  case (die i s)
  have ns: "\<not> stop_sent s"
  proof
    assume "stop_sent s"
    with die have "processes s ! i = []" by (simp add: launcher_inv_def)
    with die show False by simp
  qed
  have a: "\<forall>p \<in> set ((processes s)[i := []]). STOP \<notin> set p"
  proof
    fix p assume "p \<in> set ((processes s)[i := []])"
    then have "p = [] \<or> p \<in> set (processes s)" using set_update_subset_insert by fastforce
    then show "STOP \<notin> set p" using die by (auto simp: launcher_inv_def)
  qed
  have b: "\<forall>k < joined s. (processes s)[i := []] ! k = []"
  proof (intro allI impI)
    fix k assume k: "k < joined s"
    then have "processes s ! k = []" using die by (simp add: launcher_inv_def)
    then show "(processes s)[i := []] ! k = []"
      using die by (cases "k = i") simp_all
  qed
  show ?case using die ns a b by (simp add: launcher_inv_def)
next
  case (join s)
  then show ?case by (auto simp: launcher_inv_def less_Suc_eq)
next
  case (stop s)
  then show ?case by (auto simp: launcher_inv_def)
qed

lemma launcher_inv_reachable:
  assumes "(launch_step br cfg lim)\<^sup>*\<^sup>* (launcher_init ts) s"
  shows "launcher_inv s"
  using assms
  by (induction rule: rtranclp_induct) (auto intro: launcher_inv_init launcher_inv_step)

lemma launcher_not_stuck:
  assumes "launcher_inv s" and "\<not> stop_sent s"
  shows "\<exists>s'. launch_step br cfg lim s s'"
proof (cases "to_start s")
  case (Cons t ts)
  then show ?thesis using launch_step.start by blast
next
  case Nil
  show ?thesis
  proof (cases "joined s = length (processes s)")
    case True
    then show ?thesis using Nil assms launch_step.stop by blast
  next
    case False
    then have j: "joined s < length (processes s)" using assms by (simp add: launcher_inv_def)
    show ?thesis
    proof (cases "processes s ! joined s")
      case Nil': Nil
      then show ?thesis using Nil j launch_step.join by blast
    next
      case (Cons x xs)
      then show ?thesis using j launch_step.put by blast
    qed
  qed
qed

lemma launcher_final:
  assumes "launcher_inv s" and "stop_sent s"
  shows "\<not> (\<exists>s'. launch_step br cfg lim s s')"
proof
  assume "\<exists>s'. launch_step br cfg lim s s'"
  then obtain s' where "launch_step br cfg lim s s'" by blast
  then show False
  proof (cases rule: launch_step.cases)
    case (start t ts)
    then show ?thesis using assms by (simp add: launcher_inv_def)
  next
    case (put i x xs)
    then show ?thesis using assms by (simp add: launcher_inv_def)
  next
    case (die i)
    then show ?thesis using assms by (simp add: launcher_inv_def)
  next
    case join
    then show ?thesis using assms by (simp add: launcher_inv_def)
  next
    case stop
    then show ?thesis using assms by simp
  qed
qed

lemma sum_list_map_update:
  "i < length xs \<Longrightarrow>
     sum_list (map f (xs[i := y])) + f (xs ! i) = sum_list (map f xs) + (f y :: nat)"
proof (induction xs arbitrary: i)
  case Nil
  then show ?case by simp
next
  case (Cons x xs)
  then show ?case by (cases i) auto
qed

lemma launcher_measure_step:
  assumes "launch_step br cfg lim s s'"
  shows "launcher_measure br cfg lim s' < launcher_measure br cfg lim s"
  using assms
proof (induction rule: launch_step.induct)
  case (start s t ts)
  then show ?case by (simp add: launcher_measure_def)
next
  case (put i s x xs)
  from sum_list_map_update [OF put(1), of "\<lambda>p. 2 * length p" xs] put(2)
  have "sum_list (map (\<lambda>p. 2 * length p) ((processes s)[i := xs])) + 2
      = sum_list (map (\<lambda>p. 2 * length p) (processes s))" by simp
  then show ?case by (simp add: launcher_measure_def)
next
  case (die i s)
  from sum_list_map_update [OF die(1), of "\<lambda>p. 2 * length p" "[]"]
  have "sum_list (map (\<lambda>p. 2 * length p) ((processes s)[i := []])) + 2 * length (processes s ! i)
      = sum_list (map (\<lambda>p. 2 * length p) (processes s))" by simp
  moreover have "0 < length (processes s ! i)" using die(2) by simp
  ultimately have "sum_list (map (\<lambda>p. 2 * length p) ((processes s)[i := []]))
      < sum_list (map (\<lambda>p. 2 * length p) (processes s))" by linarith
  then show ?case by (simp add: launcher_measure_def)
next
  case (join s)
  then show ?case by (simp add: launcher_measure_def)
next
  case (stop s)
  then show ?case by (simp add: launcher_measure_def)
qed

lemma launcher_finishes:
  assumes "launcher_inv s"
  shows "\<exists>s'. (launch_step br cfg lim)\<^sup>*\<^sup>* s s' \<and> stop_sent s'"
  using assms
proof (induction "launcher_measure br cfg lim s" arbitrary: s rule: less_induct)
  case less
  show ?case
  proof (cases "stop_sent s")
    case True
    then show ?thesis by blast
  next
    case False
    from launcher_not_stuck [OF less.prems False] obtain s1 where
      s1: "launch_step br cfg lim s s1" by blast
    have "launcher_inv s1" using s1 less.prems by (rule launcher_inv_step)
    from less.hyps [OF launcher_measure_step [OF s1] this] obtain s' where
      "(launch_step br cfg lim)\<^sup>*\<^sup>* s1 s'" and "stop_sent s'" by blast
    then show ?thesis using s1 by (meson converse_rtranclp_into_rtranclp)
  qed
qed

subsection \<open>The writer loop\<close>

lemma file_write_content:
  "disk (file_write bs s f) @ pending (file_write bs s f) = disk f @ pending f @ s"
  by (simp add: file_write_def)

lemma writer_loop_leave:
  assumes "leaves (queue_get (src k) 60) = Some e"
  shows "writer_loop bs src k f = Some (f, e)"
proof (cases "queue_get (src k) 60")
  case Empty
  with assms show ?thesis by (subst writer_loop.simps) simp
next
  case (Item x)
  with assms show ?thesis by (subst writer_loop.simps) (cases x; simp)
qed

lemma leaves_None:
  assumes "leaves (queue_get (src k) 60) = None"
  shows "\<exists>r. queue_get (src k) 60 = Item (Rec r)"
proof (cases "queue_get (src k) 60")
  case Empty
  with assms show ?thesis by simp
next
  case (Item x)
  with assms show ?thesis by (cases x) simp_all
qed

lemma written_text_step:
  assumes "k < n"
  shows "written_text src k n = line_of (queue_get (src k) 60) @ written_text src (Suc k) n"
  using assms by (simp add: written_text_def upt_conv_Cons)

lemma after_pops_None:
  assumes "leaves (queue_get (src k) 60) = Some e"
  shows "after_pops bs src k (Suc d) f = None"
proof (cases "queue_get (src k) 60")
  case Empty
  then show ?thesis by simp
next
  case (Item x)
  with assms show ?thesis by (cases x) simp_all
qed

lemma after_pops_step:
  assumes "queue_get (src k) 60 = Item (Rec r)"
  shows "after_pops bs src k (Suc d) f
     = after_pops bs src (Suc k) d (file_write bs (csv_line (writerow r)) f)"
  by (simp only: after_pops.simps assms got.case qitem.case)

lemma after_pops_Some:
  assumes "after_pops bs src k d f = Some f'" and "k \<le> i" and "i < k + d"
  shows "leaves (queue_get (src i) 60) = None"
  using assms
proof (induction d arbitrary: k f)
  case 0
  then show ?case by simp
next
  case step: (Suc d)
  have l: "leaves (queue_get (src k) 60) = None"
  proof (cases "leaves (queue_get (src k) 60)")
    case None
    then show ?thesis .
  next
    case (Some e)
    then have "after_pops bs src k (Suc d) f = None" by (rule after_pops_None [of src k e])
    with step.prems(1) show ?thesis by (metis option.distinct(1))
  qed
  then obtain r where g: "queue_get (src k) 60 = Item (Rec r)" using leaves_None [of src k] by blast
  show ?case
  proof (cases "i = k")
    case True
    with l show ?thesis by (simp only:)
  next
    case False
    have a: "after_pops bs src (Suc k) d (file_write bs (csv_line (writerow r)) f) = Some f'"
      using step.prems(1) after_pops_step [of src k r bs d f] g by (simp only:)
    have "Suc k \<le> i" and "i < Suc k + d" using False step.prems(2,3) by arith+
    with a show ?thesis by (rule step.IH)
  qed
qed

lemma after_pops_exists:
  assumes "\<forall>j<d. leaves (queue_get (src (k + j)) 60) = None"
  shows "\<exists>f'. after_pops bs src k d f = Some f'"
  using assms
proof (induction d arbitrary: k f)
  case 0
  show ?case by simp
next
  case (Suc d)
  have "leaves (queue_get (src (k + 0)) 60) = None" using Suc.prems by blast
  then have "leaves (queue_get (src k) 60) = None" by simp
  then obtain r where g: "queue_get (src k) 60 = Item (Rec r)" using leaves_None [of src k] by blast
  have "\<forall>j<d. leaves (queue_get (src (Suc k + j)) 60) = None"
  proof (intro allI impI)
    fix j assume "j < d"
    then have "Suc j < Suc d" by simp
    with Suc.prems have "leaves (queue_get (src (k + Suc j)) 60) = None" by blast
    moreover have "k + Suc j = Suc k + j" by simp
    ultimately show "leaves (queue_get (src (Suc k + j)) 60) = None" by (simp only:)
  qed
  from Suc.IH [OF this, of "file_write bs (csv_line (writerow r)) f"] obtain f' where
    "after_pops bs src (Suc k) d (file_write bs (csv_line (writerow r)) f) = Some f'" by blast
  then show ?case using g by simp
qed

lemma after_pops_content:
  assumes "after_pops bs src k d f = Some f'"
  shows "disk f' @ pending f' = disk f @ pending f @ written_text src k (k + d)"
  using assms
proof (induction d arbitrary: k f)
  case 0
  then show ?case by (simp add: written_text_def)
next
  case (Suc d)
  from Suc.prems obtain r where g: "queue_get (src k) 60 = Item (Rec r)"
    and a: "after_pops bs src (Suc k) d (file_write bs (csv_line (writerow r)) f) = Some f'"
    by (auto split: got.splits qitem.splits)
  from Suc.IH [OF a]
  have "disk f' @ pending f' =
      disk f @ pending f @ csv_line (writerow r) @ written_text src (Suc k) (Suc k + d)"
    by (simp add: file_write_content)
  then show ?case using written_text_step [of k "k + Suc d" src] g by simp
qed

lemma after_pops_loop:
  assumes "after_pops bs src k d f = Some f'"
  shows "writer_loop bs src k f = writer_loop bs src (k + d) f'"
  using assms
proof (induction d arbitrary: k f)
  case 0
  then show ?case by simp
next
  case (Suc d)
  from Suc.prems obtain r where g: "queue_get (src k) 60 = Item (Rec r)"
    and a: "after_pops bs src (Suc k) d (file_write bs (csv_line (writerow r)) f) = Some f'"
    by (auto split: got.splits qitem.splits)
  have "writer_loop bs src k f
      = writer_loop bs src (Suc k) (file_write bs (csv_line (writerow r)) f)"
    using g by (subst writer_loop.simps) simp
  then show ?case using Suc.IH [OF a] by simp
qed

lemma writer_loop_Some:
  assumes "writer_loop bs src k f = Some y"
  shows "\<exists>d. after_pops bs src k d f = Some (fst y)
           \<and> leaves (queue_get (src (k + d)) 60) = Some (snd y)"
  using assms
proof (rule writer_loop.raw_induct [rotated])
  fix loop :: "nat \<Rightarrow> (nat \<Rightarrow> arrival) \<Rightarrow> nat \<Rightarrow> outfile \<Rightarrow> (outfile \<times> writer_exit) option"
    and bs src k f y
  assume IH: "\<And>bs src k f y. loop bs src k f = Some y \<Longrightarrow>
      \<exists>d. after_pops bs src k d f = Some (fst y)
           \<and> leaves (queue_get (src (k + d)) 60) = Some (snd y)"
    and eq: "(case queue_get (src k) 60 of
        Item x \<Rightarrow> (case x of STOP \<Rightarrow> Some (f, StopSignal)
                   | Rec r \<Rightarrow> loop bs src (Suc k) (file_write bs (csv_line (writerow r)) f))
      | Empty \<Rightarrow> Some (f, IdleTimeout)) = Some y"
  show "\<exists>d. after_pops bs src k d f = Some (fst y)
           \<and> leaves (queue_get (src (k + d)) 60) = Some (snd y)"
  proof (cases "leaves (queue_get (src k) 60)")
    case (Some e')
    have "y = (f, e')"
    proof (cases "queue_get (src k) 60")
      case Empty
      with eq Some show ?thesis by auto
    next
      case (Item x)
      with eq Some show ?thesis by (cases x) auto
    qed
    with Some show ?thesis by (intro exI [of _ 0]) simp
  next
    case None
    then obtain r where g: "queue_get (src k) 60 = Item (Rec r)" using leaves_None [of src k] by blast
    with eq have "loop bs src (Suc k) (file_write bs (csv_line (writerow r)) f) = Some y" by simp
    from IH [OF this] obtain d where
      "after_pops bs src (Suc k) d (file_write bs (csv_line (writerow r)) f) = Some (fst y)"
      and "leaves (queue_get (src (Suc k + d)) 60) = Some (snd y)" by blast
    with g show ?thesis by (intro exI [of _ "Suc d"]) simp
  qed
qed

lemma writer_loop_first_leave:
  assumes "\<exists>n. leaves (queue_get (src n) 60) \<noteq> None"
  shows "\<exists>m e f'. leaves (queue_get (src m) 60) = Some e
           \<and> (\<forall>j<m. leaves (queue_get (src j) 60) = None)
           \<and> after_pops bs src 0 m f = Some f'
           \<and> writer_loop bs src 0 f = Some (f', e)"
proof -
  define m where "m = (LEAST n. leaves (queue_get (src n) 60) \<noteq> None)"
  have m: "leaves (queue_get (src m) 60) \<noteq> None"
    unfolding m_def using assms by (rule LeastI_ex)
  have least: "\<forall>j<m. leaves (queue_get (src j) 60) = None"
  proof (intro allI impI)
    fix j assume j: "j < m"
    show "leaves (queue_get (src j) 60) = None"
    proof (rule ccontr)
      assume "leaves (queue_get (src j) 60) \<noteq> None"
      then have "m \<le> j" unfolding m_def by (rule Least_le)
      with j show False by simp
    qed
  qed
  from m obtain e where e: "leaves (queue_get (src m) 60) = Some e" by auto
  have "\<forall>j<m. leaves (queue_get (src (0 + j)) 60) = None" using least by simp
  from after_pops_exists [OF this, of bs f] obtain f' where
    f': "after_pops bs src 0 m f = Some f'" by blast
  have "writer_loop bs src 0 f = writer_loop bs src m f'"
    using after_pops_loop [OF f'] by simp
  also have "\<dots> = Some (f', e)" using e by (rule writer_loop_leave)
  finally show ?thesis using e least f' by blast
qed

lemma after_pops_unflushed:
  assumes "after_pops bs src k d f = Some f'" and "disk f = []"
    and "length (disk f' @ pending f') \<le> bs"
  shows "disk f' = []"
  using assms
proof (induction d arbitrary: k f)
  case 0
  then show ?case by simp
next
  case (Suc d)
  from Suc.prems(1) obtain r where g: "queue_get (src k) 60 = Item (Rec r)"
    and a: "after_pops bs src (Suc k) d (file_write bs (csv_line (writerow r)) f) = Some f'"
    by (auto split: got.splits qitem.splits)
  let ?f1 = "file_write bs (csv_line (writerow r)) f"
  from after_pops_content [OF a]
  have "length (disk ?f1 @ pending ?f1) \<le> length (disk f' @ pending f')" by simp
  then have "length (pending f @ csv_line (writerow r)) \<le> bs"
    using Suc.prems(2,3) file_write_content [of bs "csv_line (writerow r)" f] by simp
  then have "disk ?f1 = []" using Suc.prems(2) by (simp add: file_write_def)
  from Suc.IH [OF a this Suc.prems(3)] show ?case .
qed

lemma leaves_idle:
  "leaves (queue_get a 60) = Some IdleTimeout \<longleftrightarrow>
     a = Never \<or> (\<exists>d x. a = Arrives d x \<and> 60 < d)"
proof (cases a)
  case (Arrives d x)
  then show ?thesis by (cases x) (auto simp: queue_get_def)
next
  case Never
  then show ?thesis by (simp add: queue_get_def)
qed

lemma leaves_stop:
  "leaves (queue_get a 60) = Some StopSignal \<longleftrightarrow> (\<exists>d\<le>60. a = Arrives d STOP)"
proof (cases a)
  case (Arrives d x)
  then show ?thesis by (cases x) (auto simp: queue_get_def)
next
  case Never
  then show ?thesis by (simp add: queue_get_def)
qed

lemma WriterProcess_run_Some:
  assumes "WriterProcess_run bs src = Some (out, e)"
  shows "\<exists>n f. leaves (queue_get (src n) 60) = Some e
      \<and> (\<forall>j<n. leaves (queue_get (src j) 60) = None)
      \<and> file_at bs src n = Some f
      \<and> out = file_close f
      \<and> pending out = []
      \<and> disk out = bom @ csv_line fieldnames @ written_text src 0 n"
proof -
  from assms obtain f where l: "writer_loop bs src 0 (writeheader bs open_w) = Some (f, e)"
    and out: "out = file_close f"
    by (auto simp: WriterProcess_run_def split: option.splits)
  from writer_loop_Some [OF l] obtain n where
    a: "after_pops bs src 0 n (writeheader bs open_w) = Some f"
    and e: "leaves (queue_get (src n) 60) = Some e" by auto
  have none: "\<forall>j<n. leaves (queue_get (src j) 60) = None"
  proof (intro allI impI)
    fix j assume "j < n"
    then show "leaves (queue_get (src j) 60) = None"
      using after_pops_Some [of bs src 0 n "writeheader bs open_w" f j] a by simp
  qed
  from after_pops_content [OF a]
  have "disk f @ pending f = bom @ csv_line fieldnames @ written_text src 0 n"
    by (simp add: writeheader_def file_write_content open_w_def)
  then have "disk out = bom @ csv_line fieldnames @ written_text src 0 n" and "pending out = []"
    using out by (simp_all add: file_close_def)
  with a e none out show ?thesis
    by (intro exI [of _ n] exI [of _ f]) (simp add: file_at_def)
qed

lemma file_at_Some:
  "(\<exists>f. file_at bs src i = Some f) \<longleftrightarrow> (\<forall>j<i. leaves (queue_get (src j) 60) = None)"
proof
  assume "\<exists>f. file_at bs src i = Some f"
  then obtain f where a: "after_pops bs src 0 i (writeheader bs open_w) = Some f"
    by (auto simp: file_at_def)
  show "\<forall>j<i. leaves (queue_get (src j) 60) = None"
  proof (intro allI impI)
    fix j assume "j < i"
    then show "leaves (queue_get (src j) 60) = None"
      using after_pops_Some [of bs src 0 i "writeheader bs open_w" f j] a by simp
  qed
next
  assume "\<forall>j<i. leaves (queue_get (src j) 60) = None"
  then have "\<forall>j<i. leaves (queue_get (src (0 + j)) 60) = None" by simp
  from after_pops_exists [of i src 0 bs "writeheader bs open_w", OF this]
  show "\<exists>f. file_at bs src i = Some f" by (simp add: file_at_def)
qed

lemma file_at_content:
  assumes "file_at bs src i = Some f"
  shows "disk f @ pending f = bom @ csv_line fieldnames @ written_text src 0 i"
    and "length (bom @ csv_line fieldnames @ written_text src 0 i) \<le> bs \<Longrightarrow> disk f = []"
proof -
  from assms have a: "after_pops bs src 0 i (writeheader bs open_w) = Some f"
    by (simp add: file_at_def)
  from after_pops_content [OF a]
  show c: "disk f @ pending f = bom @ csv_line fieldnames @ written_text src 0 i"
    by (simp add: writeheader_def file_write_content open_w_def)
  assume le: "length (bom @ csv_line fieldnames @ written_text src 0 i) \<le> bs"
  have "length (bom @ csv_line fieldnames) \<le> bs" using le by simp
  then have d: "disk (writeheader bs open_w) = []"
    by (simp add: writeheader_def file_write_def open_w_def)
  have "length (disk f @ pending f) \<le> bs" using le c by (simp only:)
  from after_pops_unflushed [OF a d this] show "disk f = []" .
qed

lemma written_text_snoc:
  "written_text src k (Suc (k + d))
     = written_text src k (k + d) @ line_of (queue_get (src (k + d)) 60)"
  by (simp add: written_text_def)

subsection \<open>The timer\<close>

lemma replace_in_range:
  assumes "0 \<le> h" "h < 24" "0 \<le> m" "m < 60"
  shows "replace t h m = Inr (t\<lparr>hour := h, minute := m, second := 0, microsecond := 0\<rparr>)"
  using assms by (simp add: replace_def)

section \<open>The properties\<close>

lemmas eval_run = run_def run_loop.simps turn_def Job51Spider_def Let_def request_json_def
  get_items_def error_in_def error_text_def falsy_def walk_def page_of_def spider_of_def
  five_entries_def

subsection \<open>The worker and its limit\<close>

text \<open>
  Claim C1. A worker puts at most \<open>limit\<close> records on the queue. A fresh spider
  counts from 0, every put is followed by one increment, and nothing else
  touches the queue or the counter; so after the run, however it ended, the
  queue is the old queue followed by exactly \<open>count\<close> records, and \<open>count\<close> is
  at most the limit (at most 0 for a limit below 0). The counter after the
  \<open>k\<close>-th put is \<open>k\<close>, so the bound on the final counter is the bound before
  and after every put. A page may hold more entries than the budget left: from
  any state, the walk over a page of entries puts its first \<open>limit - count\<close>
  entries and no more; and the walk over any page at all puts records, counts
  each, and does not take the counter past the limit. The example after the
  theorem is a page of five entries under a limit of 3, of which the first
  three are put.
\<close>

theorem run_emits_at_most_limit:
  "(\<exists>rs. queue (snd (run drv (Job51Spider c j code q lim))) = q @ map Rec rs
      \<and> count (snd (run drv (Job51Spider c j code q lim))) = int (length rs)
      \<and> int (length rs) \<le> max 0 lim)
   \<and> queue (fst (for_jobs (map Entry es) sp))
       = queue sp @ map (\<lambda>e. Rec (make_result sp e)) (take (nat (limit sp - count sp)) es)
   \<and> count (fst (for_jobs (map Entry es) sp))
       = count sp + int (min (nat (limit sp - count sp)) (length es))
   \<and> (\<exists>rs. queue (fst (for_jobs xs sp)) = queue sp @ map Rec rs
         \<and> count (fst (for_jobs xs sp)) = count sp + int (length rs)
         \<and> count (fst (for_jobs xs sp)) \<le> max (count sp) (limit sp))"
proof (intro conjI)
  show "\<exists>rs. queue (snd (run drv (Job51Spider c j code q lim))) = q @ map Rec rs
      \<and> count (snd (run drv (Job51Spider c j code q lim))) = int (length rs)
      \<and> int (length rs) \<le> max 0 lim"
    using run_puts [of drv "Job51Spider c j code q lim"] by (auto simp: Job51Spider_def)
  show "queue (fst (for_jobs (map Entry es) sp))
       = queue sp @ map (\<lambda>e. Rec (make_result sp e)) (take (nat (limit sp - count sp)) es)"
    by (simp add: for_jobs_entries)
  show "count (fst (for_jobs (map Entry es) sp))
       = count sp + int (min (nat (limit sp - count sp)) (length es))"
    by (simp add: for_jobs_entries)
  show "\<exists>rs. queue (fst (for_jobs xs sp)) = queue sp @ map Rec rs
         \<and> count (fst (for_jobs xs sp)) = count sp + int (length rs)
         \<and> count (fst (for_jobs xs sp)) \<le> max (count sp) (limit sp)"
  proof (cases "count sp \<le> limit sp")
    case True
    with for_jobs_puts [of xs sp] show ?thesis by auto
  next
    case False
    then have "for_jobs xs sp = (sp, None)" by (cases xs) simp_all
    then show ?thesis by (intro exI [of _ "[]"]) simp
  qed
qed

theorem run_emits_at_most_limit_witness:
  "queue (snd (run five_then_empty (Job51Spider ''Beijing'' ''Java'' ''010000'' [] 3)))
     = map Rec [make_result (spider_of 3) (entry_named ''a''),
                make_result (spider_of 3) (entry_named ''b''),
                make_result (spider_of 3) (entry_named ''c'')]
   \<and> count (snd (run five_then_empty (Job51Spider ''Beijing'' ''Java'' ''010000'' [] 3))) = 3
   \<and> (3 :: int) \<le> max 0 3
   \<and> count (fst (for_jobs (map Entry [entry_named ''a'', entry_named ''b''])
                 ((spider_of 3)\<lparr>count := 2\<rparr>))) = 3
   \<and> queue (snd (run bad_entry (Job51Spider ''Beijing'' ''Java'' ''010000'' [] 3)))
       = [Rec (make_result (spider_of 3) (entry_named ''a''))]"
  using run_emits_at_most_limit [of five_then_empty "''Beijing''" "''Java''" "''010000''" "[]" 3
      "[entry_named ''a'', entry_named ''b'']" "(spider_of 3)\<lparr>count := 2\<rparr>" "[]"]
  by (simp add: eval_run five_then_empty_def bad_entry_def make_result_def)

subsection \<open>How the worker loop is left\<close>

text \<open>
  Claim C2, as the specification has it, says that nothing but the three
  conditions stops the worker loop. Two runs with the limit 30 show otherwise.
  On a site whose second page is \<^verbatim>\<open>{"resultbody": null}\<close>, the second turn
  starts with 5 records counted, the response has no key \<^verbatim>\<open>error\<close> and its
  entries cannot be read; none of the three conditions holds, and the loop is
  left by an \<^verbatim>\<open>AttributeError\<close>. On a site whose page holds an entry and a
  \<^verbatim>\<open>null\<close>, the first turn puts one record and is then left the same way,
  though the page holds two elements. In both, \<^verbatim>\<open>run\<close> is left without a
  value.
\<close>

theorem worker_loop_other_exit_counterexample:
  "at_turn null_body_on_page_two 1 (spider_of 30) 1 = Some (2, after_page_one)
   \<and> count after_page_one < limit after_page_one
   \<and> request_json null_body_on_page_two (job after_page_one) 2 (city_code after_page_one)
       = Inr (DataObject None NotObject)
   \<and> \<not> signals_error (DataObject None NotObject)
   \<and> \<not> no_entries (DataObject None NotObject)
   \<and> first_cause null_body_on_page_two 2 after_page_one = None
   \<and> turn null_body_on_page_two 2 after_page_one = Raise AttributeError after_page_one
   \<and> run null_body_on_page_two (spider_of 30) = (Raised AttributeError, after_page_one)
   \<and> first_cause bad_entry 1 (spider_of 30) = None
   \<and> turn bad_entry 1 (spider_of 30) = Raise AttributeError after_one_entry
   \<and> run bad_entry (spider_of 30) = (Raised AttributeError, after_one_entry)"
  by (simp add: eval_run first_cause_def signals_error_def no_entries_def
      null_body_on_page_two_def bad_entry_def after_page_one_def after_one_entry_def
      make_result_def)

text \<open>
  Claim C2, amended. The worker loop is left at the first turn at which the
  counter has reached the limit, or the response is an object with the key
  \<^verbatim>\<open>error\<close>, or the entries of the page are read and there are none, these
  three looked at in this order; or at which the request, or the reading of a
  response that is not of the expected shape, raises an exception. For one
  turn: the way the code breaks out of it is the first cause of the
  specification, and the code breaks out of it if and only if there is such a
  cause. For the loop: there is a turn \<open>n\<close> at which the loop is left, at no
  earlier turn was there a cause, and turn \<open>n\<close> ends either with a \<^verbatim>\<open>break\<close>
  or with an exception, which is then what the loop gives. When every response
  is one that the code can read, the loop is left by a \<^verbatim>\<open>break\<close>.
\<close>

theorem worker_loop_stops_at_first_condition:
  "stopped_by (turn drv p s) = first_cause drv p s
   \<and> ((\<exists>s'. turn drv p s = Break s') \<longleftrightarrow> first_cause drv p s \<noteq> None)
   \<and> (\<exists>n pn sn. at_turn drv page sp n = Some (pn, sn)
         \<and> (\<forall>k<n. \<exists>pk sk. at_turn drv page sp k = Some (pk, sk) \<and> first_cause drv pk sk = None)
         \<and> ((\<exists>s'. turn drv pn sn = Break s' \<and> run_loop drv page sp = (None, s'))
              \<or> (\<exists>e s'. turn drv pn sn = Raise e s' \<and> run_loop drv page sp = (Some e, s'))))
   \<and> ((\<forall>pg. \<exists>d. request_json drv (job sp) pg (city_code sp) = Inr d \<and> readable d)
        \<longrightarrow> fst (run_loop drv page sp) = None)"
  using stopped_by_turn [of drv p s] is_Break_turn [of drv p s] run_loop_ends [of drv page sp]
    run_loop_readable [of drv sp page]
  by blast

theorem worker_loop_stops_at_first_condition_witness:
  "first_cause five_then_empty 1 (spider_of 30) = None
   \<and> stopped_by (turn five_then_empty 1 (spider_of 30)) = None
   \<and> at_turn five_then_empty 1 (spider_of 30) 1 = Some (2, after_page_one)
   \<and> first_cause five_then_empty 2 after_page_one = Some Exhausted
   \<and> fst (run_loop five_then_empty 1 (spider_of 30)) = None
   \<and> first_cause failing 1 (spider_of 0) = Some LimitReached
   \<and> first_cause failing 1 (spider_of 30) = Some FetchError
   \<and> fst (run_loop null_body_on_page_two 1 (spider_of 30)) = Some AttributeError"
  using worker_loop_stops_at_first_condition
    [of five_then_empty 1 "spider_of 30" 1 "spider_of 30"]
  by (simp add: eval_run first_cause_def signals_error_def no_entries_def readable_def
      five_then_empty_def failing_def null_body_on_page_two_def after_page_one_def
      make_result_def)

subsection \<open>What the worker returns\<close>




subsection \<open>The fields of a record\<close>

text \<open>
  Claim C8, as the specification has it, asks that the fields of a record be
  the remote fields with nothing done to them, and that a record built from an
  entry without any of the remote fields be empty in \<^verbatim>\<open>industry\<close> too.
  Neither holds of \<^verbatim>\<open>industry\<close>: it is one string made of two remote fields
  around \<^verbatim>\<open>" / "\<close>, and for the entry without fields it is not empty, in the
  record and in the cell written to the file.
\<close>

theorem make_result_industry_counterexample:
  "industry (make_result (spider_of 3) full_entry) = ''Internet / Software''
   \<and> companyIndustryType1Str full_entry = Some ''Internet''
   \<and> companyIndustryType2Str full_entry = Some ''Software''
   \<and> industry (make_result (spider_of 3) absent_entry) = ''None / None''
   \<and> industry (make_result (spider_of 3) absent_entry) \<noteq> []
   \<and> writerow (make_result (spider_of 3) absent_entry) ! 8 = ''None / None''"
  by (simp add: make_result_def fstr_def absent_entry_def full_entry_def writerow_def)

text \<open>
  Claim C8, amended. Each of \<^verbatim>\<open>title\<close>, \<^verbatim>\<open>place\<close>, \<^verbatim>\<open>salary\<close>, \<^verbatim>\<open>experience\<close>,
  \<^verbatim>\<open>education\<close>, \<^verbatim>\<open>companytype\<close> and \<^verbatim>\<open>description\<close> is the remote field as it
  came, empty when the field is missing; \<^verbatim>\<open>provider\<close> is the fixed name and
  \<^verbatim>\<open>keyword\<close> the job of the task; and when both industry fields are there,
  \<^verbatim>\<open>industry\<close> is the two joined by \<^verbatim>\<open>" / "\<close>.
\<close>

theorem make_result_fields:
  "title (make_result sp e) = jobName e
   \<and> place (make_result sp e) = jobAreaString e
   \<and> salary (make_result sp e) = provideSalaryString e
   \<and> experience (make_result sp e) = workYearString e
   \<and> education (make_result sp e) = degreeString e
   \<and> companytype (make_result sp e) = companyTypeString e
   \<and> description (make_result sp e) = jobDescribe e
   \<and> provider (make_result sp e) = provider_name
   \<and> keyword (make_result sp e) = job sp
   \<and> (\<forall>a b. companyIndustryType1Str e = Some a \<and> companyIndustryType2Str e = Some b
         \<longrightarrow> industry (make_result sp e) = a @ '' / '' @ b)"
  by (simp add: make_result_def fstr_def)

theorem make_result_fields_witness:
  "title (make_result (spider_of 3) full_entry) = Some ''Java Engineer''
   \<and> keyword (make_result (spider_of 3) full_entry) = ''Java''
   \<and> industry (make_result (spider_of 3) full_entry) = ''Internet / Software''
   \<and> title (make_result (spider_of 3) absent_entry) = None
   \<and> description (make_result (spider_of 3) absent_entry) = None"
  using make_result_fields [of "spider_of 3" full_entry]
    make_result_fields [of "spider_of 3" absent_entry]
  by (simp add: full_entry_def absent_entry_def spider_of_def Job51Spider_def)

subsection \<open>The stop signal\<close>

lemma the_puts: "process_puts every_browser no_cities 1 (''c'', ''j'') = [Rec the_record]"
  by (simp add: process_puts_def SpiderProcess_run_def every_browser_def get_city_code_def
      config_get_def no_cities_def the_record_def eval_run five_then_empty_def)

lemma one_task_reachable:
  "(launch_step every_browser no_cities 1)\<^sup>*\<^sup>* (launcher_init [(''c'', ''j'')]) one_task_done"
proof -
  let ?step = "launch_step every_browser no_cities 1"
  let ?s0 = "launcher_init [(''c'', ''j'')]"
  let ?s1 = "\<lparr>to_start = [], processes = [[Rec the_record]], joined = 0,
      shared_queue = [], stop_sent = False\<rparr>"
  let ?s2 = "\<lparr>to_start = [], processes = [[]], joined = 0,
      shared_queue = [Rec the_record], stop_sent = False\<rparr>"
  let ?s3 = "\<lparr>to_start = [], processes = [[]], joined = Suc 0,
      shared_queue = [Rec the_record], stop_sent = False\<rparr>"
  have 1: "?step ?s0 ?s1"
    using launch_step.start [of ?s0 "(''c'', ''j'')" "[]" every_browser no_cities 1]
    by (simp add: launcher_init_def the_puts)
  have 2: "?step ?s1 ?s2"
    using launch_step.put [of 0 ?s1 "Rec the_record" "[]" every_browser no_cities 1] by simp
  have 3: "?step ?s2 ?s3"
    using launch_step.join [of ?s2 every_browser no_cities 1] by simp
  have 4: "?step ?s3 one_task_done"
    using launch_step.stop [of ?s3 every_browser no_cities 1] by (simp add: one_task_done_def)
  have "?step\<^sup>*\<^sup>* ?s0 ?s1" using 1 by (rule r_into_rtranclp)
  then have "?step\<^sup>*\<^sup>* ?s0 ?s2" using 2 by (rule rtranclp.rtrancl_into_rtrancl)
  then have "?step\<^sup>*\<^sup>* ?s0 ?s3" using 3 by (rule rtranclp.rtrancl_into_rtrancl)
  then show ?thesis using 4 by (rule rtranclp.rtrancl_into_rtrancl)
qed


lemma one_task_batch:
  "run_crawl_once every_browser no_cities one_task [Rec the_record, STOP]"
proof -
  have "use_concurrent one_task" and "limit_per_task one_task = 1"
    and "tasks one_task = [(''c'', ''j'')]"
    by (simp_all add: one_task_def use_concurrent_def limit_per_task_def tasks_def city_list_def
        job_list_def or_default_def)
  then show ?thesis
    using run_crawl_once.concurrent [of one_task every_browser no_cities one_task_done]
      one_task_reachable
    by (simp add: one_task_done_def)
qed


subsection \<open>The writer\<close>

lemma lines_examples:
  "csv_line fieldnames = header_line"
  "csv_line (writerow the_record) = the_record_line"
  "csv_line (writerow quoted_record) = quoted_record_line"
  by (simp_all add: csv_line_def csv_field_def special_def fieldnames_def writerow_def cell_def
      the_record_def make_result_def fstr_def Job51Spider_def entry_named_def quoted_record_def
      header_line_def the_record_line_def quoted_record_line_def crlf_def provider_name_def)

lemma lengths_examples:
  "length bom = 3" "length header_line = 91" "length the_record_line = 39"
  "length quoted_record_line = 35"
  by (simp_all add: bom_def header_line_def the_record_line_def quoted_record_line_def crlf_def
      provider_name_def)



lemma writer_examples:
  "WriterProcess_run 0 feed_stop
     = Some (\<lparr>disk = bom @ header_line @ the_record_line @ quoted_record_line, pending = []\<rparr>,
             StopSignal)"
  "WriterProcess_run 8192 feed_idle
     = Some (\<lparr>disk = bom @ header_line @ the_record_line @ quoted_record_line, pending = []\<rparr>,
             IdleTimeout)"
  "file_at 0 endless 1 = Some \<lparr>disk = bom @ header_line @ the_record_line, pending = []\<rparr>"
  "written_text feed_stop 0 2 = the_record_line @ quoted_record_line"
  by (simp_all add: file_at_def WriterProcess_run_def writer_loop.simps writeheader_def open_w_def
      file_write_def file_close_def feed_stop_def feed_idle_def endless_def queue_get_def
      written_text_def lines_examples lengths_examples numeral_2_eq_2 numeral_3_eq_3)


subsection \<open>The city table\<close>

text \<open>
  Claim C5. \<^verbatim>\<open>get_city_code\<close> returns a code for every city name and never
  raises: both exceptions of the lookup are caught, and its result has no
  error case. A city whose name (in the case the parser stores) is in the
  section \<^verbatim>\<open>citycode\<close> gets its code and no warning;
  a city that is not there, or a table without that section, gets
  \<^verbatim>\<open>000000\<close> and the warning, and any number of calls with that city all
  return the same.
\<close>

theorem get_city_code_never_raises:
  "(\<forall>sec code. cfg ''citycode'' = Some sec \<and> sec (optionxform c) = Some code \<longrightarrow>
       get_city_code cfg c = (code, []))
   \<and> (cfg ''citycode'' = None
        \<or> (\<exists>sec. cfg ''citycode'' = Some sec \<and> sec (optionxform c) = None) \<longrightarrow>
       get_city_code cfg c = (''000000'', [CityWarning c])
       \<and> map (get_city_code cfg) (replicate n c) = replicate n (''000000'', [CityWarning c]))"
  by (auto simp: get_city_code_def config_get_def)

lemma optionxform_examples:
  "optionxform ''Beijing'' = ''beijing''" "optionxform ''atlantis'' = ''atlantis''"
  by code_simp+

theorem get_city_code_never_raises_witness:
  "get_city_code one_city ''Beijing'' = (''010000'', [])
   \<and> get_city_code one_city ''atlantis'' = (''000000'', [CityWarning ''atlantis''])
   \<and> map (get_city_code one_city) (replicate 3 ''atlantis'')
        = replicate 3 (''000000'', [CityWarning ''atlantis''])
   \<and> get_city_code no_cities ''beijing'' = (''000000'', [CityWarning ''beijing''])"
  using get_city_code_never_raises [of one_city "''Beijing''" 3]
    get_city_code_never_raises [of one_city "''atlantis''" 3]
    get_city_code_never_raises [of no_cities "''beijing''" 3]
  by (simp add: one_city_def no_cities_def optionxform_examples)

subsection \<open>The timer\<close>

text \<open>
  Claim C6. With hours and minutes of the window in range, a turn of the timer
  loop at the time \<open>now\<close> runs a batch if and only if the minute of the day of
  \<open>now\<close> is at least that of the begin and below that of the end; the date,
  the second and the microsecond of \<open>now\<close> play no part. After the batch it
  sleeps \<open>interval\<close> minutes; outside the window it runs no batch and sleeps
  60 seconds. The example: for the window from 02:00 to 05:00, no batch at
  01:59:59.999999 and at 05:00, a batch at 02:00 and at 04:59:59.999999.
\<close>

theorem timer_turn_window:
  assumes "0 \<le> begin_hour ts" "begin_hour ts < 24" "0 \<le> begin_minute ts" "begin_minute ts < 60"
    and "0 \<le> end_hour ts" "end_hour ts < 24" "0 \<le> end_minute ts" "end_minute ts < 60"
    and "0 \<le> minute now" "minute now < 60" "0 \<le> second now" "0 \<le> microsecond now"
  shows "timer_turn ts now =
     Inr (if begin_hour ts * 60 + begin_minute ts \<le> hour now * 60 + minute now
             \<and> hour now * 60 + minute now < end_hour ts * 60 + end_minute ts
          then [RunCrawlOnce, Sleep (interval ts * 60)]
          else [Sleep 60])"
proof -
  let ?b = "now\<lparr>hour := begin_hour ts, minute := begin_minute ts, second := 0, microsecond := 0\<rparr>"
  let ?e = "now\<lparr>hour := end_hour ts, minute := end_minute ts, second := 0, microsecond := 0\<rparr>"
  have rb: "replace now (begin_hour ts) (begin_minute ts) = Inr ?b"
    using assms by (intro replace_in_range)
  have re: "replace now (end_hour ts) (end_minute ts) = Inr ?e"
    using assms by (intro replace_in_range)
  have b: "dt_le ?b now \<longleftrightarrow> begin_hour ts * 60 + begin_minute ts \<le> hour now * 60 + minute now"
    using assms by (auto simp: dt_le_def dt_less_def fields_def)
  have e: "dt_less now ?e \<longleftrightarrow> hour now * 60 + minute now < end_hour ts * 60 + end_minute ts"
    using assms by (auto simp: dt_less_def fields_def)
  show ?thesis
    unfolding timer_turn_def rb re using b e by simp
qed

theorem timer_turn_window_witness:
  "timer_turn night_window (at_time 1 59 59 999999) = Inr [Sleep 60]
   \<and> timer_turn night_window (at_time 2 0 0 0) = Inr [RunCrawlOnce, Sleep 3600]
   \<and> timer_turn night_window (at_time 4 59 59 999999) = Inr [RunCrawlOnce, Sleep 3600]
   \<and> timer_turn night_window (at_time 5 0 0 0) = Inr [Sleep 60]
   \<and> main (no_parameters\<lparr>timer_arg := Some night_window\<rparr>) three_ticks 3
        = Inr [Sleep 60, RunCrawlOnce, Sleep 3600, RunCrawlOnce, Sleep 3600]"
  using timer_turn_window [of night_window "at_time 1 59 59 999999"]
    timer_turn_window [of night_window "at_time 2 0 0 0"]
    timer_turn_window [of night_window "at_time 4 59 59 999999"]
    timer_turn_window [of night_window "at_time 5 0 0 0"]
    timer_turn_window [of night_window "at_time 3 10 0 5"]
  by (simp add: night_window_def at_time_def main_def no_parameters_def three_ticks_def
      sleeps_ok_def numeral_3_eq_3)

subsection \<open>The HTML page\<close>

text \<open>
  Claim C9. For a CSV file that does not exist, and for one without any row,
  the page is the fixed head, the ten header cells of \<^verbatim>\<open>fieldnames\<close>, the end
  of the header row and an empty table body: no line of it is a data cell, and
  its only row is the header row. The function returns the page in both cases.
\<close>

theorem html_fallback_on_missing_artifact:
  "generate_html_from_csv None =
     html_head @ map (\<lambda>h. ''<th>'' @ h @ ''</th>'') fieldnames
       @ [''</tr>'', ''</thead>'', ''<tbody>'', ''</tbody>'', ''</table>'', ''</body>'',
          navbar, ''</html>'']
   \<and> generate_html_from_csv (Some []) = generate_html_from_csv None
   \<and> length fieldnames = 10
   \<and> data_lines (generate_html_from_csv None) = []
   \<and> count_list (generate_html_from_csv None) ''<tr>'' = 1"
  by (simp add: generate_html_from_csv_def read_csv_def fieldnames_def Let_def data_lines_def
      html_head_def navbar_def)

subsection \<open>The default lists\<close>

text \<open>
  Claim C10. The list of cities is the default list when the key \<^verbatim>\<open>city\<close> is
  absent and also when it holds the empty list, and likewise for the jobs; so a
  batch with \<^verbatim>\<open>city = []\<close> has a task for each of the 33 default cities, and
  with both lists empty it has 33 times 49 tasks. A list that is not empty is
  taken as it is.
\<close>

theorem empty_lists_fall_back_to_defaults:
  "city_list (p\<lparr>city_arg := Some []\<rparr>) = DEFAULT_CITIES
   \<and> city_list (p\<lparr>city_arg := None\<rparr>) = DEFAULT_CITIES
   \<and> job_list (p\<lparr>job_arg := Some []\<rparr>) = DEFAULT_JOBS
   \<and> job_list (p\<lparr>job_arg := None\<rparr>) = DEFAULT_JOBS
   \<and> tasks (p\<lparr>city_arg := Some []\<rparr>) = List.product DEFAULT_CITIES (job_list p)
   \<and> length (tasks (p\<lparr>city_arg := Some [], job_arg := Some []\<rparr>)) = 1617
   \<and> (\<forall>cs. city_arg p = Some cs \<and> cs \<noteq> [] \<longrightarrow> city_list p = cs)"
  by (simp add: city_list_def job_list_def or_default_def tasks_def DEFAULT_CITIES_def
      DEFAULT_JOBS_def)

theorem empty_lists_fall_back_to_defaults_witness:
  "length (tasks (no_parameters\<lparr>city_arg := Some []\<rparr>)) = 1617
   \<and> city_list (no_parameters\<lparr>city_arg := Some []\<rparr>) = DEFAULT_CITIES
   \<and> city_list (no_parameters\<lparr>city_arg := Some [''Beijing'']\<rparr>) = [''Beijing'']
   \<and> tasks (no_parameters\<lparr>city_arg := Some [''Beijing''], job_arg := Some [''Java'']\<rparr>)
        = [(''Beijing'', ''Java'')]"
  using empty_lists_fall_back_to_defaults [of "no_parameters\<lparr>city_arg := Some [''Beijing'']\<rparr>"]
    empty_lists_fall_back_to_defaults [of no_parameters]
  by (simp add: no_parameters_def city_list_def job_list_def or_default_def tasks_def
      DEFAULT_CITIES_def DEFAULT_JOBS_def)


end
